theory Spec2Isabelle
  imports Complex_Main
begin

section \<open>Time and the server's local calendar\<close>

text \<open>
  A JavaScript \<open>Date\<close> is a time value in milliseconds since the epoch, or the
  Invalid Date (time value NaN); here \<open>Some t\<close> or \<open>None\<close>.  The server's local
  time zone is a fixed offset \<open>tz\<close> in milliseconds (local time = UTC + \<open>tz\<close>);
  daylight-saving changes are outside the model.  A calendar day is its number
  of days since 1970-01-01: \<open>getFullYear/getMonth/getDate\<close> of a date determine
  and are determined by \<open>local_day\<close>; \<open>utc_day\<close> is the same for UTC.
\<close>

type_synonym jsdate = "int option"

definition DAY_MS :: int where
  "DAY_MS = 24 * 60 * 60 * 1000"

definition local_day :: "int \<Rightarrow> int \<Rightarrow> int" where
  "local_day tz t = (t + tz) div DAY_MS"

definition utc_day :: "int \<Rightarrow> int" where
  "utc_day t = t div DAY_MS"

text \<open>\<open>new Date(y, m, d)\<close>: local midnight of the local calendar day \<open>d\<close>.\<close>

definition local_midnight :: "int \<Rightarrow> int \<Rightarrow> int" where
  "local_midnight tz d = d * DAY_MS - tz"

section \<open>parseRange\<close>

record range =
  start :: jsdate
  end' :: jsdate

text \<open>Truthiness of an optional query string: absent and the empty string are falsy.\<close>

definition truthy :: "string option \<Rightarrow> bool" where
  "truthy s = (case s of None \<Rightarrow> False | Some x \<Rightarrow> x \<noteq> [])"

text \<open>
  \<open>parseDate\<close> stands for the built-in \<open>new Date(string)\<close>, \<open>None\<close> for a string
  that does not parse; \<open>new Date(undefined)\<close> is the Invalid Date.  \<open>now\<close> is the
  time of the call.
\<close>

definition new_Date :: "(string \<Rightarrow> jsdate) \<Rightarrow> string option \<Rightarrow> jsdate" where
  "new_Date parseDate s = (case s of None \<Rightarrow> None | Some x \<Rightarrow> parseDate x)"

definition parseRange ::
  "(string \<Rightarrow> jsdate) \<Rightarrow> int \<Rightarrow> int \<Rightarrow> string option \<Rightarrow> string option \<Rightarrow> string option \<Rightarrow> range" where
  "parseRange parseDate tz now rng from to =
     (if rng = Some ''today'' then
        \<lparr>start = Some (local_midnight tz (local_day tz now)),
         end' = Some (local_midnight tz (local_day tz now + 1))\<rparr>
      else if rng = Some ''yesterday'' then
        \<lparr>start = Some (local_midnight tz (local_day tz now - 1)),
         end' = Some (local_midnight tz (local_day tz now))\<rparr>
      else if rng = Some ''7d'' then
        \<lparr>start = Some (now - 7 * 24 * 60 * 60 * 1000), end' = Some now\<rparr>
      else if rng = Some ''30d'' then
        \<lparr>start = Some (now - 30 * 24 * 60 * 60 * 1000), end' = Some now\<rparr>
      else if rng = Some ''custom'' \<and> truthy from \<and> truthy to then
        \<lparr>start = new_Date parseDate from, end' = new_Date parseDate to\<rparr>
      else
        \<lparr>start = Some (local_midnight tz (local_day tz now)),
         end' = Some (local_midnight tz (local_day tz now + 1))\<rparr>)"

text \<open>
  The /api/timeseries handler destructures \<open>range = '7d'\<close> from the query and
  calls \<open>parseRange(range)\<close> with no \<open>from\<close> and no \<open>to\<close>.
\<close>

definition timeseries_range_param :: "string option \<Rightarrow> string option" where
  "timeseries_range_param rng = (case rng of None \<Rightarrow> Some ''7d'' | Some r \<Rightarrow> Some r)"

definition timeseries_parseRange :: "(string \<Rightarrow> jsdate) \<Rightarrow> int \<Rightarrow> int \<Rightarrow> string option \<Rightarrow> range" where
  "timeseries_parseRange parseDate tz now rng =
     parseRange parseDate tz now (timeseries_range_param rng) None None"

section \<open>kommoRequest: the paginated fetch\<close>

text \<open>
  The body of an upstream response is a JSON value.  \<open>js_truthy\<close> is
  JavaScript truthiness, \<open>js_prop\<close> a property read (\<open>None\<close> for undefined),
  \<open>items_of\<close> the test of kommoRequest on the shape of \<open>response.data\<close>: a bare
  array, or an object whose \<open>_embedded.items\<close> is an array; any other shape has
  no items and is returned as it is.
\<close>

datatype json = JNull | JBool bool | JNum int | JStr string | JArr "json list" | JObj "(string \<times> json) list"

fun js_truthy :: "json \<Rightarrow> bool" where
  "js_truthy JNull = False"
| "js_truthy (JBool b) = b"
| "js_truthy (JNum n) = (n \<noteq> 0)"
| "js_truthy (JStr s) = (s \<noteq> [])"
| "js_truthy (JArr xs) = True"
| "js_truthy (JObj kvs) = True"

fun js_prop :: "json \<Rightarrow> string \<Rightarrow> json option" where
  "js_prop (JObj kvs) k = map_of (rev kvs) k"
| "js_prop _ k = None"

definition items_of :: "json \<Rightarrow> json list option" where
  "items_of data =
     (case data of
        JArr xs \<Rightarrow> Some xs
      | _ \<Rightarrow>
         (if js_truthy data then
            (case js_prop data ''_embedded'' of
               None \<Rightarrow> None
             | Some e \<Rightarrow>
                (if js_truthy e then
                   (case js_prop e ''items'' of Some (JArr xs) \<Rightarrow> Some xs | _ \<Rightarrow> None)
                 else None))
          else None))"

text \<open>
  One call of \<open>axios.get\<close> resolves with a body (\<open>Ok\<close>), or rejects with an error
  that carries a response (\<open>HttpError status body\<close>) or none (\<open>NetworkError\<close>).
  The upstream is a function \<open>srv\<close> of the number of requests issued before this
  one and of the page asked for.  The loop \<open>while (true)\<close> may run forever: the
  model takes the number of iterations it may still run (\<open>fuel\<close>) and returns
  \<open>None\<close> when that is used up, together with the requests, sleeps and log
  lines so far.  A result is \<open>Inr\<close> the returned value, \<open>Inl\<close> the thrown error.
\<close>

datatype response = Ok json | HttpError nat json | NetworkError string

datatype event = Request nat | Sleep nat | ConsoleError

definition limit :: nat where
  "limit = 250"

definition retryable :: "response \<Rightarrow> bool" where
  "retryable err = (case err of HttpError status body \<Rightarrow> status = 429 \<or> status \<ge> 500 | _ \<Rightarrow> False)"

fun kommoRequest_loop ::
  "nat \<Rightarrow> (nat \<Rightarrow> nat \<Rightarrow> response) \<Rightarrow> nat \<Rightarrow> nat \<Rightarrow> json list \<Rightarrow> (response + json) option \<times> event list" where
  "kommoRequest_loop 0 srv n page results = (None, [])"
| "kommoRequest_loop (Suc fuel) srv n page results =
     (case srv n page of
        Ok data \<Rightarrow>
          (case items_of data of
             None \<Rightarrow> (Some (Inr data), [Request page])
           | Some items \<Rightarrow>
               (if length items < limit then (Some (Inr (JArr (results @ items))), [Request page])
                else (let (r, tr) = kommoRequest_loop fuel srv (n + 1) (page + 1) (results @ items)
                      in (r, Request page # tr))))
      | err \<Rightarrow>
          (if retryable err then
             (let (r, tr) = kommoRequest_loop fuel srv (n + 1) page results
              in (r, Request page # Sleep 1000 # tr))
           else (Some (Inl err), [Request page, ConsoleError])))"

definition kommoRequest :: "nat \<Rightarrow> (nat \<Rightarrow> nat \<Rightarrow> response) \<Rightarrow> (response + json) option \<times> event list" where
  "kommoRequest fuel srv = kommoRequest_loop fuel srv 0 1 []"


definition two_pages :: "nat \<Rightarrow> nat \<Rightarrow> response" where
  "two_pages n page =
     (if page = 1 then Ok (JArr (replicate 250 (JNum 1)))
      else if page = 2 then Ok (JObj [(''_embedded'', JObj [(''items'', JArr [JNum 2, JNum 3])])])
      else Ok JNull)"


section \<open>The cache and getCached\<close>

text \<open>
  Modelled from the spec: the cache object comes from the package lru-cache,
  which is not part of the repository.  Following the spec, an entry is a key,
  a value and the time it was stored; it has expired when \<open>now - storedAt\<close> is
  at least the TTL of 60 seconds, which is tested when the entry is read; the
  cache holds at most 500 entries and drops the least recently used ones.  The
  list is ordered from the most to the least recently used entry.
\<close>

type_synonym 'v lru = "(string \<times> 'v \<times> int) list"

definition CACHE_TTL :: int where
  "CACHE_TTL = 60 * 1000"

definition CACHE_MAX :: nat where
  "CACHE_MAX = 500"

definition cache_delete :: "'v lru \<Rightarrow> string \<Rightarrow> 'v lru" where
  "cache_delete c k = filter (\<lambda>e. fst e \<noteq> k) c"

definition cache_has :: "'v lru \<Rightarrow> int \<Rightarrow> string \<Rightarrow> bool" where
  "cache_has c now k = (case map_of c k of None \<Rightarrow> False | Some (v, t) \<Rightarrow> now - t < CACHE_TTL)"

definition cache_get :: "'v lru \<Rightarrow> int \<Rightarrow> string \<Rightarrow> 'v option \<times> 'v lru" where
  "cache_get c now k =
     (case map_of c k of
        None \<Rightarrow> (None, c)
      | Some (v, t) \<Rightarrow>
          (if now - t < CACHE_TTL then (Some v, (k, v, t) # cache_delete c k)
           else (None, cache_delete c k)))"

definition cache_set :: "'v lru \<Rightarrow> int \<Rightarrow> string \<Rightarrow> 'v \<Rightarrow> 'v lru" where
  "cache_set c now k v = take CACHE_MAX ((k, v, now) # cache_delete c k)"

text \<open>
  \<open>getCached(key, fetchFn)\<close>.  \<open>now\<close> is the time of the call.  The asynchronous
  \<open>fetchFn\<close> is a function of the time it starts that returns the value it
  resolves with (\<open>Inr\<close>) or the error it rejects with (\<open>Inl\<close>), and the time at
  which it does so; the value is stored at that time.  The outcome records the
  number of invocations of \<open>fetchFn\<close>.  A result \<open>Inr None\<close> is \<open>undefined\<close>.
\<close>

record ('e, 'v) cached =
  result :: "'e + 'v option"
  cache :: "'v lru"
  calls :: nat
  finished :: int

definition getCached ::
  "'v lru \<Rightarrow> int \<Rightarrow> string \<Rightarrow> (int \<Rightarrow> ('e + 'v) \<times> int) \<Rightarrow> ('e, 'v) cached" where
  "getCached c now key fetchFn =
     (if cache_has c now key then
        (let (v, c') = cache_get c now key
         in \<lparr>result = Inr v, cache = c', calls = 0, finished = now\<rparr>)
      else
        (case fetchFn now of
           (Inl err, t) \<Rightarrow> \<lparr>result = Inl err, cache = c, calls = 1, finished = t\<rparr>
         | (Inr val, t) \<Rightarrow> \<lparr>result = Inr (Some val), cache = cache_set c t key val, calls = 1, finished = t\<rparr>))"

text \<open>
  Three compute functions used as concrete inputs below; the third rejects.
\<close>

definition slow_seven :: "int \<Rightarrow> (unit + int) \<times> int" where
  "slow_seven t = (Inr 7, t + 5)"

definition slow_eight :: "int \<Rightarrow> (unit + int) \<times> int" where
  "slow_eight t = (Inr 8, t + 5)"

definition always_rejects :: "int \<Rightarrow> (unit + int) \<times> int" where
  "always_rejects t = (Inl (), t + 5)"

section \<open>Leads and the /api/metrics aggregation\<close>

text \<open>
  A lead as the handlers read it: \<open>status_id\<close>, \<open>price\<close> (\<open>None\<close> when absent or
  null), \<open>created_at\<close> and \<open>closed_at\<close> in epoch seconds, and the name of the
  nested \<open>_embedded.status\<close> when the lead carries one.  \<open>price_or_0\<close> is the
  expression \<open>l.price || 0\<close>.
\<close>

record lead =
  status_id :: int
  price :: "int option"
  created_at :: int
  closed_at :: int
  embedded_status :: "string option"

definition price_or_0 :: "lead \<Rightarrow> int" where
  "price_or_0 l = (case price l of None \<Rightarrow> 0 | Some p \<Rightarrow> if p = 0 then 0 else p)"

text \<open>
  \<open>Number(x.toFixed(digits))\<close>: the multiple of \<open>10 ^ - digits\<close> nearest to \<open>x\<close>,
  the one of larger magnitude when two are equally near.  Numbers are exact
  rationals here; the rounding error of IEEE doubles is outside the model.
\<close>

definition toFixed :: "rat \<Rightarrow> nat \<Rightarrow> rat" where
  "toFixed x digits =
     (if x < 0 then - (of_int \<lfloor>(- x) * 10 ^ digits + 1 / 2\<rfloor> / 10 ^ digits)
      else of_int \<lfloor>x * 10 ^ digits + 1 / 2\<rfloor> / 10 ^ digits)"

record metrics =
  leads_created :: nat
  leads_won :: nat
  leads_lost :: nat
  active_leads :: nat
  conversion_rate :: rat
  revenue_won :: int
  avg_ticket :: rat
  time_to_first_touch_avg_minutes :: "rat option"

definition metrics_of :: "lead list \<Rightarrow> lead list \<Rightarrow> metrics" where
  "metrics_of createdLeads closedLeads =
     (let wonLeads = filter (\<lambda>l. status_id l = 142) closedLeads;
          lostLeads = filter (\<lambda>l. status_id l = 143) closedLeads;
          activeLeads = filter (\<lambda>l. status_id l \<noteq> 142 \<and> status_id l \<noteq> 143) createdLeads;
          leadsCreatedCount = length createdLeads;
          leadsWonCount = length wonLeads;
          leadsLostCount = length lostLeads;
          revenueWon = foldl (\<lambda>sum l. sum + price_or_0 l) 0 wonLeads;
          conversionRate = (if leadsCreatedCount > 0
                            then (of_nat leadsWonCount / of_nat leadsCreatedCount) * 100 else 0);
          avgTicket = (if leadsWonCount > 0 then of_int revenueWon / of_nat leadsWonCount else 0)
      in \<lparr>leads_created = leadsCreatedCount,
          leads_won = leadsWonCount,
          leads_lost = leadsLostCount,
          active_leads = length activeLeads,
          conversion_rate = toFixed conversionRate 4,
          revenue_won = revenueWon,
          avg_ticket = toFixed avgTicket 2,
          time_to_first_touch_avg_minutes = None\<rparr>)"

text \<open>Three leads used as concrete inputs below.\<close>

definition open_lead :: lead where
  "open_lead = \<lparr>status_id = 7, price = Some 40, created_at = 0, closed_at = 0, embedded_status = None\<rparr>"

definition won_lead :: lead where
  "won_lead = \<lparr>status_id = 142, price = Some 100, created_at = 0, closed_at = 0, embedded_status = None\<rparr>"

definition lost_lead :: lead where
  "lost_lead = \<lparr>status_id = 143, price = None, created_at = 0, closed_at = 0, embedded_status = None\<rparr>"

section \<open>The /api/funnels aggregation\<close>

text \<open>
  \<open>String(status_id)\<close> for an integer: its decimal digits, with a minus sign
  when negative.
\<close>

definition digit_char :: "nat \<Rightarrow> char" where
  "digit_char d = ''0123456789'' ! d"

fun string_of_nat :: "nat \<Rightarrow> string" where
  "string_of_nat n =
     (if n < 10 then [digit_char n] else string_of_nat (n div 10) @ [digit_char (n mod 10)])"

declare string_of_nat.simps [simp del]

definition String_of_int :: "int \<Rightarrow> string" where
  "String_of_int i = (if i < 0 then CHR ''-'' # string_of_nat (nat (- i)) else string_of_nat (nat i))"

text \<open>
  \<open>stageMap\<close> is a plain object, so \<open>Object.values\<close> lists its own properties
  in the order of the language: first the keys that are array indices (the
  canonical decimal form of an integer from 0 to 2^32 - 2) in ascending numeric
  order, then the other string keys in the order they were created.  The object
  is a list of its own properties in creation order; \<open>object_values\<close> reorders
  them.
\<close>

definition is_digit :: "char \<Rightarrow> bool" where
  "is_digit c = (c \<in> set ''0123456789'')"

definition digit_value :: "char \<Rightarrow> int" where
  "digit_value c = int (length (takeWhile (\<lambda>d. d \<noteq> c) ''0123456789''))"

definition int_of_digits :: "string \<Rightarrow> int" where
  "int_of_digits s = foldl (\<lambda>n c. 10 * n + digit_value c) 0 s"

definition is_array_index :: "string \<Rightarrow> bool" where
  "is_array_index s =
     (s \<noteq> [] \<and> list_all is_digit s \<and> (s = ''0'' \<or> hd s \<noteq> CHR ''0'')
      \<and> int_of_digits s < 4294967295)"

text \<open>
  The object literal \<open>{}\<close> inherits from \<open>Object.prototype\<close>: for these names
  \<open>stageMap[stageName]\<close> is an inherited function or object, which is truthy,
  so no own property is created and the two \<open>+=\<close> write to the inherited value,
  not to \<open>stageMap\<close>.
\<close>

definition object_prototype_names :: "string list" where
  "object_prototype_names =
     [''constructor'', ''__defineGetter__'', ''__defineSetter__'', ''hasOwnProperty'',
      ''__lookupGetter__'', ''__lookupSetter__'', ''isPrototypeOf'', ''propertyIsEnumerable'',
      ''toString'', ''valueOf'', ''__proto__'', ''toLocaleString'']"

record stage =
  stage_name :: string
  count :: nat
  value_sum :: int

definition stage_label :: "lead \<Rightarrow> string" where
  "stage_label l = (case embedded_status l of Some name \<Rightarrow> name | None \<Rightarrow> String_of_int (status_id l))"

definition funnel_step :: "(string \<times> stage) list \<Rightarrow> lead \<Rightarrow> (string \<times> stage) list" where
  "funnel_step stageMap l =
     (let stageName = stage_label l in
      if stageName \<in> set object_prototype_names then stageMap
      else
        (let stageMap' =
               (if map_of stageMap stageName = None
                then stageMap @ [(stageName, \<lparr>stage_name = stageName, count = 0, value_sum = 0\<rparr>)]
                else stageMap)
         in map (\<lambda>(k, s). if k = stageName
                            then (k, s\<lparr>count := count s + 1, value_sum := value_sum s + price_or_0 l\<rparr>)
                            else (k, s)) stageMap'))"

definition object_values :: "(string \<times> 'a) list \<Rightarrow> 'a list" where
  "object_values obj =
     map snd (sort_key (\<lambda>e. int_of_digits (fst e)) (filter (\<lambda>e. is_array_index (fst e)) obj)
              @ filter (\<lambda>e. \<not> is_array_index (fst e)) obj)"

definition funnels :: "lead list \<Rightarrow> stage list" where
  "funnels leads = object_values (foldl funnel_step [] leads)"

text \<open>
  The three leads of the example: two whose nested \<open>_embedded.status\<close> has the
  name New, with the prices 100 and 50, and one without a nested status, with
  \<open>status_id\<close> 5 and the price 0.
\<close>

definition new_100 :: lead where
  "new_100 = \<lparr>status_id = 1, price = Some 100, created_at = 0, closed_at = 0, embedded_status = Some ''New''\<rparr>"

definition new_50 :: lead where
  "new_50 = \<lparr>status_id = 1, price = Some 50, created_at = 0, closed_at = 0, embedded_status = Some ''New''\<rparr>"

definition five_0 :: lead where
  "five_0 = \<lparr>status_id = 5, price = Some 0, created_at = 0, closed_at = 0, embedded_status = None\<rparr>"

text \<open>
  What the statements below compare the handler with: the distinct elements of
  a list in the order of their first occurrence, the entry of a label (its
  count and the sum of its prices over the leads), and the labels that become
  own properties of \<open>stageMap\<close>.
\<close>

definition first_occurrences :: "'a list \<Rightarrow> 'a list" where
  "first_occurrences xs = rev (remdups (rev xs))"

definition stage_of :: "lead list \<Rightarrow> string \<Rightarrow> stage" where
  "stage_of leads name =
     \<lparr>stage_name = name,
      count = length (filter (\<lambda>l. stage_label l = name) leads),
      value_sum = sum_list (map price_or_0 (filter (\<lambda>l. stage_label l = name) leads))\<rparr>"

definition own_stage_names :: "lead list \<Rightarrow> string list" where
  "own_stage_names leads =
     filter (\<lambda>name. name \<notin> set object_prototype_names) (first_occurrences (map stage_label leads))"

section \<open>The /api/tasks bucketing\<close>

text \<open>
  A task as the handler reads it: \<open>complete_till_at\<close> in epoch seconds, \<open>None\<close>
  when absent or null.  The handler treats the task as having no due date when
  \<open>complete_till_at\<close> is falsy, which for a number means 0.  \<open>now\<close> is the time
  of the call in milliseconds; two dates have the same year, month and day of
  the month in local time exactly when they have the same \<open>local_day\<close>.
\<close>

record task =
  complete_till_at :: "int option"

record buckets =
  overdue :: nat
  today :: nat
  next48h :: nat

definition tasks_step :: "int \<Rightarrow> int \<Rightarrow> buckets \<Rightarrow> task \<Rightarrow> buckets" where
  "tasks_step tz now b t =
     (case complete_till_at t of
        None \<Rightarrow> b
      | Some c \<Rightarrow>
          (if c = 0 then b
           else
             (let due = c * 1000 in
              if due < now then b\<lparr>overdue := overdue b + 1\<rparr>
              else if local_day tz due = local_day tz now then b\<lparr>today := today b + 1\<rparr>
              else if due - now \<le> 48 * 60 * 60 * 1000 then b\<lparr>next48h := next48h b + 1\<rparr>
              else b)))"

definition tasks_buckets :: "int \<Rightarrow> int \<Rightarrow> task list \<Rightarrow> buckets" where
  "tasks_buckets tz now tasks = foldl (tasks_step tz now) \<lparr>overdue = 0, today = 0, next48h = 0\<rparr> tasks"

text \<open>
  What the statements below compare the loop with: the due time of a task in
  milliseconds, if it has one, and the three tests in the order of the
  \<open>if\<close> chain, each with the negations of the ones before it, followed by the
  case that matches none of them.
\<close>

definition due_of :: "task \<Rightarrow> int option" where
  "due_of t = (case complete_till_at t of None \<Rightarrow> None | Some c \<Rightarrow> if c = 0 then None else Some (c * 1000))"

definition is_overdue :: "int \<Rightarrow> task \<Rightarrow> bool" where
  "is_overdue now t = (case due_of t of None \<Rightarrow> False | Some due \<Rightarrow> due < now)"

definition is_today :: "int \<Rightarrow> int \<Rightarrow> task \<Rightarrow> bool" where
  "is_today tz now t =
     (case due_of t of None \<Rightarrow> False
      | Some due \<Rightarrow> now \<le> due \<and> local_day tz due = local_day tz now)"

definition is_next48h :: "int \<Rightarrow> int \<Rightarrow> task \<Rightarrow> bool" where
  "is_next48h tz now t =
     (case due_of t of None \<Rightarrow> False
      | Some due \<Rightarrow> now \<le> due \<and> local_day tz due \<noteq> local_day tz now \<and> due - now \<le> 172800000)"

definition is_later :: "int \<Rightarrow> int \<Rightarrow> task \<Rightarrow> bool" where
  "is_later tz now t =
     (case due_of t of None \<Rightarrow> False
      | Some due \<Rightarrow> now \<le> due \<and> local_day tz due \<noteq> local_day tz now \<and> 172800000 < due - now)"

text \<open>
  Concrete inputs used below: \<open>noon\<close> is 2024-01-10 12:00:00 UTC, and the tasks
  are due 10 hours before it, 6 hours, 30 hours and 72 hours after it, and not
  at all.
\<close>

definition noon :: int where
  "noon = 1704888000000"

definition due_10h_ago :: task where
  "due_10h_ago = \<lparr>complete_till_at = Some 1704852000\<rparr>"

definition due_later_today :: task where
  "due_later_today = \<lparr>complete_till_at = Some 1704909600\<rparr>"

definition due_in_30h :: task where
  "due_in_30h = \<lparr>complete_till_at = Some 1704996000\<rparr>"

definition due_in_72h :: task where
  "due_in_72h = \<lparr>complete_till_at = Some 1705147200\<rparr>"

definition no_due :: task where
  "no_due = \<lparr>complete_till_at = None\<rparr>"

section \<open>The /api/timeseries handler\<close>

text \<open>
  \<open>date.toISOString().slice(0, 10)\<close> for a time value \<open>t\<close> in milliseconds: the
  calendar date of \<open>t\<close> in UTC.  \<open>civil_from_days\<close> turns a number of days since
  1970-01-01 into year, month and day of the proleptic Gregorian calendar; a
  year from 0 to 9999 is printed with four digits, any other year with a sign
  and six digits, of which the first ten characters are kept.  Time values are
  taken to be within the range of \<open>Date\<close>, where \<open>toISOString\<close> does not throw.
\<close>

definition pad_start :: "nat \<Rightarrow> string \<Rightarrow> string" where
  "pad_start n s = replicate (n - length s) CHR ''0'' @ s"

definition civil_from_days :: "int \<Rightarrow> int \<times> int \<times> int" where
  "civil_from_days z0 =
     (let z = z0 + 719468;
          era = z div 146097;
          doe = z - era * 146097;
          yoe = (doe - doe div 1460 + doe div 36524 - doe div 146096) div 365;
          doy = doe - (365 * yoe + yoe div 4 - yoe div 100);
          mp = (5 * doy + 2) div 153;
          d = doy - (153 * mp + 2) div 5 + 1;
          m = (if mp < 10 then mp + 3 else mp - 9);
          y = yoe + era * 400 + (if m \<le> 2 then 1 else 0)
      in (y, m, d))"

definition iso_date :: "int \<Rightarrow> string" where
  "iso_date t =
     (let (y, m, d) = civil_from_days (utc_day t);
          year = (if 0 \<le> y \<and> y \<le> 9999 then pad_start 4 (string_of_nat (nat y))
                  else (if y < 0 then CHR ''-'' else CHR ''+'') # pad_start 6 (string_of_nat (nat \<bar>y\<bar>)))
      in take 10 (year @ ''-'' @ pad_start 2 (string_of_nat (nat m)) @ ''-''
                  @ pad_start 2 (string_of_nat (nat d))))"

text \<open>
  \<open>series\<close> is a plain object whose keys are such date strings; none of them
  is an array index, so \<open>Object.keys\<close> lists them in the order they were
  created.  \<open>series_put\<close> is the assignment \<open>series[k] = v\<close> and \<open>series_add\<close> the
  statement \<open>if (series[k] !== undefined) series[k] += n\<close>.
\<close>

type_synonym series = "(string \<times> int) list"

definition series_put :: "series \<Rightarrow> string \<Rightarrow> int \<Rightarrow> series" where
  "series_put s k v =
     (if map_of s k = None then s @ [(k, v)]
      else map (\<lambda>(k', v'). if k' = k then (k', v) else (k', v')) s)"

definition series_add :: "series \<Rightarrow> string \<Rightarrow> int \<Rightarrow> series" where
  "series_add s k n =
     (case map_of s k of
        None \<Rightarrow> s
      | Some v \<Rightarrow> map (\<lambda>(k', v'). if k' = k then (k', v' + n) else (k', v')) s)"

text \<open>
  \<open>Math.ceil((end - start) / (24 * 60 * 60 * 1000))\<close>, NaN (\<open>None\<close>) when a date
  is invalid, and the loop that fills the series: for each \<open>i\<close> below that
  number, the key of \<open>new Date(start.getFullYear(), start.getMonth(),
  start.getDate() + i)\<close>, the local midnight of the \<open>i\<close>-th day from the local
  day of \<open>start\<close>.
\<close>

definition day_count :: "range \<Rightarrow> int option" where
  "day_count r =
     (case (start r, end' r) of
        (Some s, Some e) \<Rightarrow> Some (- ((s - e) div (24 * 60 * 60 * 1000)))
      | _ \<Rightarrow> None)"

definition series_init :: "int \<Rightarrow> range \<Rightarrow> series" where
  "series_init tz r =
     (case (day_count r, start r) of
        (Some days, Some s) \<Rightarrow>
          foldl (\<lambda>series i. series_put series (iso_date (local_midnight tz (local_day tz s + int i))) 0)
            [] [0 ..< nat days]
      | _ \<Rightarrow> [])"


text \<open>
  The query of a request, each parameter a string or absent.  A fetch of leads
  is a call of \<open>fetchLeads\<close> or \<open>fetchLeadsClosed\<close> with the range in epoch
  seconds and the two filters, which are sent only when truthy; \<open>upstream\<close> gives
  its outcome, \<open>Inl\<close> when it throws.  The function passed to \<open>getCached\<close> is
  \<open>timeseries_compute\<close>, which also returns the fetches it made.
\<close>

record req_query =
  q_metric :: "string option"
  q_range :: "string option"
  q_from :: "string option"
  q_to :: "string option"
  q_pipeline_id :: "string option"
  q_user_id :: "string option"

definition toUnix :: "jsdate \<Rightarrow> int option" where
  "toUnix date = (case date of None \<Rightarrow> None | Some t \<Rightarrow> Some (t div 1000))"

definition if_truthy :: "string option \<Rightarrow> string option" where
  "if_truthy s = (if truthy s then s else None)"

datatype fetch_call =
  FetchLeads "int option" "int option" "string option" "string option"
| FetchLeadsClosed "int option" "int option" "string option" "string option"

definition timeseries_compute ::
  "(string \<Rightarrow> jsdate) \<Rightarrow> int \<Rightarrow> (fetch_call \<Rightarrow> unit + lead list) \<Rightarrow> string \<Rightarrow> string option
     \<Rightarrow> string option \<Rightarrow> string option \<Rightarrow> int \<Rightarrow> (unit + series) \<times> fetch_call list" where
  "timeseries_compute parseDate tz upstream metric rng pipeline_id user_id now =
     (let r = parseRange parseDate tz now rng None None;
          series = series_init tz r
      in if metric = ''leads_created'' then
           (let call = FetchLeads (toUnix (start r)) (toUnix (end' r))
                         (if_truthy pipeline_id) (if_truthy user_id)
            in case upstream call of
                 Inl err \<Rightarrow> (Inl err, [call])
               | Inr leads \<Rightarrow>
                   (Inr (foldl (\<lambda>series l. series_add series (iso_date (created_at l * 1000)) 1)
                           series leads), [call]))
         else if metric = ''leads_won'' \<or> metric = ''revenue_won'' then
           (let call = FetchLeadsClosed (toUnix (start r)) (toUnix (end' r))
                         (if_truthy pipeline_id) (if_truthy user_id)
            in case upstream call of
                 Inl err \<Rightarrow> (Inl err, [call])
               | Inr leads \<Rightarrow>
                   (let wonLeads = filter (\<lambda>l. status_id l = 142) leads
                    in (Inr (foldl (\<lambda>series l.
                                      series_add series (iso_date (closed_at l * 1000))
                                        (if metric = ''leads_won'' then 1 else price_or_0 l))
                               series wonLeads), [call])))
         else (Inr series, []))"

text \<open>
  The handler.  \<open>!metric\<close> holds for an absent and for an empty parameter.  An
  absent value prints as \<open>undefined\<close> in the template string of the cache key.  The response is the status, the JSON body (\<open>Inl\<close> an error
  message, \<open>Inr\<close> the data), the cache after the request and the fetches made.
\<close>

definition template :: "string option \<Rightarrow> string" where
  "template s = (case s of None \<Rightarrow> ''undefined'' | Some x \<Rightarrow> x)"

record timeseries_response =
  status :: nat
  body :: "string + series option"
  cache_after :: "series lru"
  fetches :: "fetch_call list"

definition timeseries_key :: "req_query \<Rightarrow> string" where
  "timeseries_key q =
     ''/timeseries?metric='' @ template (q_metric q)
       @ ''&range='' @ template (timeseries_range_param (q_range q))
       @ ''&pipeline='' @ template (q_pipeline_id q)
       @ ''&user_id='' @ template (q_user_id q)"

definition timeseries_handler ::
  "(string \<Rightarrow> jsdate) \<Rightarrow> int \<Rightarrow> (fetch_call \<Rightarrow> unit + lead list) \<Rightarrow> series lru \<Rightarrow> int \<Rightarrow> req_query
     \<Rightarrow> timeseries_response" where
  "timeseries_handler parseDate tz upstream c now q =
     (case q_metric q of
        None \<Rightarrow> \<lparr>status = 400, body = Inl ''metric is required'', cache_after = c, fetches = []\<rparr>
      | Some metric \<Rightarrow>
          (if metric = [] then
             \<lparr>status = 400, body = Inl ''metric is required'', cache_after = c, fetches = []\<rparr>
           else
             (let compute = timeseries_compute parseDate tz upstream metric
                              (timeseries_range_param (q_range q)) (q_pipeline_id q) (q_user_id q);
                  r = getCached c now (timeseries_key q) (\<lambda>t. (fst (compute t), t));
                  trace = (if calls r = 0 then [] else snd (compute now))
              in case result r of
                   Inl err \<Rightarrow> \<lparr>status = 500, body = Inl ''Failed to fetch timeseries data'',
                                cache_after = cache r, fetches = trace\<rparr>
                 | Inr data \<Rightarrow> \<lparr>status = 200, body = Inr data, cache_after = cache r,
                                 fetches = trace\<rparr>)))"

text \<open>
  Concrete inputs used below: a server three hours east of UTC, an upstream
  that returns one lead created at 2024-01-10 11:00:00 UTC, a date parser for
  two strings, and four queries.
\<close>

definition moscow :: int where
  "moscow = 3 * 60 * 60 * 1000"

definition one_lead_today :: "fetch_call \<Rightarrow> unit + lead list" where
  "one_lead_today call =
     Inr [\<lparr>status_id = 7, price = Some 40, created_at = 1704884400, closed_at = 0, embedded_status = None\<rparr>]"

definition parse_feb :: "string \<Rightarrow> jsdate" where
  "parse_feb s = (if s = ''2024-02-10'' then Some 1707523200000
                  else if s = ''2024-02-01'' then Some 1706745600000 else None)"

definition bogus_yesterday :: req_query where
  "bogus_yesterday = \<lparr>q_metric = Some ''bogus'', q_range = Some ''yesterday'', q_from = None, q_to = None,
                       q_pipeline_id = None, q_user_id = None\<rparr>"

definition empty_metric :: req_query where
  "empty_metric = \<lparr>q_metric = Some [], q_range = None, q_from = None, q_to = None,
                    q_pipeline_id = None, q_user_id = None\<rparr>"


definition created_no_range :: req_query where
  "created_no_range = \<lparr>q_metric = Some ''leads_created'', q_range = None, q_from = None, q_to = None,
                        q_pipeline_id = None, q_user_id = None\<rparr>"

section \<open>Properties of the paginated fetch\<close>

lemma loop_pages:
  assumes "\<forall>p \<in> set full. length p = limit" "length lastp < limit"
    and "\<forall>n i. i \<le> length full \<longrightarrow> (\<exists>d. srv n (page + i) = Ok d \<and> items_of d = Some ((full @ [lastp]) ! i))"
    and "length full < fuel"
  shows "kommoRequest_loop fuel srv n page results
           = (Some (Inr (JArr (results @ concat full @ lastp))), map Request [page ..< page + length full + 1])"
  using assms
proof (induction full arbitrary: fuel n page results)
  case Nil
  then obtain f where f: "fuel = Suc f" by (cases fuel) auto
  from Nil(3) obtain d where "srv n page = Ok d" "items_of d = Some lastp"
    by (metis add.right_neutral le_refl list.size(3) nth_Cons_0 append_Nil)
  with Nil(2) f show ?case by simp
next
  case (Cons p full)
  then obtain f where f: "fuel = Suc f" by (cases fuel) auto
  from Cons.prems(3)[rule_format, of 0 n] obtain d where d: "srv n page = Ok d" "items_of d = Some p"
    by auto
  have len: "length p = limit" using Cons.prems(1) by simp
  have step: "\<forall>n i. i \<le> length full \<longrightarrow> (\<exists>d. srv n (page + 1 + i) = Ok d \<and> items_of d = Some ((full @ [lastp]) ! i))"
  proof (intro allI impI)
    fix m i assume "i \<le> length full"
    then have "Suc i \<le> length (p # full)" by simp
    from Cons.prems(3)[rule_format, OF this, of m] show "\<exists>d. srv m (page + 1 + i) = Ok d \<and> items_of d = Some ((full @ [lastp]) ! i)"
      by simp
  qed
  have IH: "kommoRequest_loop f srv (n + 1) (page + 1) (results @ p)
           = (Some (Inr (JArr ((results @ p) @ concat full @ lastp))), map Request [page + 1 ..< page + 1 + length full + 1])"
  proof (rule Cons.IH)
    show "\<forall>p\<in>set full. length p = limit" using Cons.prems(1) by simp
    show "length lastp < limit" by (rule Cons.prems(2))
    show "\<forall>n i. i \<le> length full \<longrightarrow> (\<exists>d. srv n (page + 1 + i) = Ok d \<and> items_of d = Some ((full @ [lastp]) ! i))"
      by (rule step)
    show "length full < f" using Cons.prems(4) f by simp
  qed
  have up: "[page ..< page + length (p # full) + 1] = page # [page + 1 ..< page + 1 + length full + 1]"
    by (subst upt_rec) (simp del: upt_Suc)
  show ?case
    unfolding f up kommoRequest_loop.simps using d len IH by (simp del: upt_Suc)
qed







text \<open>
  C3.  When every page holds exactly 250 items until a last page with fewer, the
  fetcher asks for the pages 1, 2, ... once each, stops after the short page, and
  returns all the items in order: as many items as the pages hold together, in
  as many requests as there are pages.
\<close>

theorem kommoRequest_paginates:
  assumes "pages = full @ [lastp]"
    and "\<forall>p \<in> set full. length p = 250"
    and "length lastp < 250"
    and "\<forall>n i. i < length pages \<longrightarrow> (\<exists>d. srv n (Suc i) = Ok d \<and> items_of d = Some (pages ! i))"
    and "length pages \<le> fuel"
  shows "kommoRequest fuel srv
           = (Some (Inr (JArr (concat pages))), map Request [1 ..< Suc (length pages)])
         \<and> length (concat pages) = sum_list (map length pages)
         \<and> length (map Request [1 ..< Suc (length pages)]) = length pages"
proof -
  have "kommoRequest_loop fuel srv 0 1 []
          = (Some (Inr (JArr ([] @ concat full @ lastp))), map Request [1 ..< 1 + length full + 1])"
  proof (rule loop_pages)
    show "\<forall>p\<in>set full. length p = limit" using assms(2) by (simp add: limit_def)
    show "length lastp < limit" using assms(3) by (simp add: limit_def)
    show "\<forall>n i. i \<le> length full \<longrightarrow> (\<exists>d. srv n (1 + i) = Ok d \<and> items_of d = Some ((full @ [lastp]) ! i))"
      using assms(4) unfolding assms(1) by simp
    show "length full < fuel" using assms(5) unfolding assms(1) by simp
  qed
  then show ?thesis
    unfolding kommoRequest_def assms(1) by (simp add: length_concat del: upt_Suc)
qed

theorem kommoRequest_paginates_witness:
  "kommoRequest 2 two_pages
     = (Some (Inr (JArr (replicate 250 (JNum 1) @ [JNum 2, JNum 3]))), [Request 1, Request 2])"
proof -
  have 1: "[replicate 250 (JNum 1), [JNum 2, JNum 3]] = [replicate 250 (JNum 1)] @ [ [JNum 2, JNum 3] ]"
    by simp
  have 2: "\<forall>p \<in> set [replicate 250 (JNum 1)]. length p = 250" by simp
  have 3: "length [JNum 2, JNum 3] < 250" by simp
  have 4: "\<forall>n i. i < length [replicate 250 (JNum 1), [JNum 2, JNum 3]] \<longrightarrow>
             (\<exists>d. two_pages n (Suc i) = Ok d \<and> items_of d = Some ([replicate 250 (JNum 1), [JNum 2, JNum 3]] ! i))"
    by (auto simp: two_pages_def items_of_def less_Suc_eq)
  have 5: "length [replicate 250 (JNum 1), [JNum 2, JNum 3]] \<le> 2" by simp
  from kommoRequest_paginates[OF 1 2 3 4 5] show ?thesis
    by (simp add: upt_rec)
qed

section \<open>Properties of the cache-aside layer\<close>

lemma map_of_delete [simp]: "map_of (cache_delete c k) k = None"
  by (induction c) (auto simp: cache_delete_def)

lemma delete_delete [simp]: "cache_delete (cache_delete c k) k = cache_delete c k"
  by (simp add: cache_delete_def)

lemma take_max_Cons: "take CACHE_MAX (e # c) = e # take (CACHE_MAX - 1) c"
  by (simp add: CACHE_MAX_def take_Cons')

lemma delete_take: "cache_delete (take n (cache_delete c k)) k = take n (cache_delete c k)"
  unfolding cache_delete_def
  by (rule filter_True) (auto dest: in_set_takeD)

lemma first_call_stores:
  assumes "result (getCached c t1 key f) = Inr v"
  shows "\<exists>w ts rest. v = Some w \<and> cache (getCached c t1 key f) = (key, w, ts) # rest
           \<and> cache_delete rest key = rest
           \<and> (if cache_has c t1 key then map_of c key = Some (w, ts) \<and> t1 - ts < CACHE_TTL
              else f t1 = (Inr w, ts))"
proof (cases "cache_has c t1 key")
  case True
  then obtain w ts where m: "map_of c key = Some (w, ts)" "t1 - ts < CACHE_TTL"
    by (auto simp: cache_has_def split: option.splits)
  with True assms show ?thesis
    by (auto simp: getCached_def cache_get_def)
next
  case False
  with assms obtain w ts where f: "f t1 = (Inr w, ts)" "v = Some w"
    by (auto simp: getCached_def split: prod.splits sum.splits)
  with False show ?thesis
    by (auto simp: getCached_def cache_set_def take_max_Cons delete_take)
qed

lemma hit_again:
  assumes "cache_delete rest key = rest" "t2 - ts < CACHE_TTL"
  shows "getCached ((key, w, ts) # rest) t2 key g
           = \<lparr>result = Inr (Some w), cache = (key, w, ts) # rest, calls = 0, finished = t2\<rparr>"
  using assms by (simp add: getCached_def cache_has_def cache_get_def cache_delete_def)

lemma miss_after_ttl:
  assumes "CACHE_TTL \<le> t2 - ts"
  shows "getCached ((key, w, ts) # rest) t2 key g
           = (case g t2 of
                (Inl err, t) \<Rightarrow> \<lparr>result = Inl err, cache = (key, w, ts) # rest, calls = 1, finished = t\<rparr>
              | (Inr val, t) \<Rightarrow> \<lparr>result = Inr (Some val), cache = cache_set ((key, w, ts) # rest) t key val,
                                 calls = 1, finished = t\<rparr>)"
  using assms by (simp add: getCached_def cache_has_def)


text \<open>
  C1 (as amended).  When a call of getCached returns a value (its compute
  function resolved, or the entry was live), that value is in the cache under
  the key with its storage time, and the call has invoked the compute function
  at most once (not at all on a hit).  A following call with the same key less
  than 60 seconds after the storage time returns the stored value, invokes
  nothing and leaves the cache as it is, so the two calls together invoke the
  compute function at most once; a following call 60 seconds or more after the
  storage time invokes its compute function once, returns its outcome and, when
  that is a value, stores it under the key with the new storage time.
\<close>

theorem getCached_within_and_after_ttl:
  fixes f :: "int \<Rightarrow> ('e + 'v) \<times> int"
  assumes "result (getCached c t1 key f) = Inr v"
  shows "calls (getCached c t1 key f) \<le> 1
     \<and> (\<exists>w ts. v = Some w
          \<and> map_of (cache (getCached c t1 key f)) key = Some (w, ts)
          \<and> (if cache_has c t1 key then calls (getCached c t1 key f) = 0
              else calls (getCached c t1 key f) = 1 \<and> f t1 = (Inr w, ts))
          \<and> (\<forall>t2 (g :: int \<Rightarrow> ('e + 'v) \<times> int). t2 - ts < CACHE_TTL \<longrightarrow>
                getCached (cache (getCached c t1 key f)) t2 key g
                  = \<lparr>result = Inr (Some w), cache = cache (getCached c t1 key f),
                     calls = 0, finished = t2\<rparr>)
          \<and> (\<forall>t2 (g :: int \<Rightarrow> ('e + 'v) \<times> int). CACHE_TTL \<le> t2 - ts \<longrightarrow>
                calls (getCached (cache (getCached c t1 key f)) t2 key g) = 1
                \<and> (\<forall>err t3. g t2 = (Inl err, t3) \<longrightarrow>
                      result (getCached (cache (getCached c t1 key f)) t2 key g) = Inl err)
                \<and> (\<forall>val t3. g t2 = (Inr val, t3) \<longrightarrow>
                      result (getCached (cache (getCached c t1 key f)) t2 key g) = Inr (Some val)
                      \<and> map_of (cache (getCached (cache (getCached c t1 key f)) t2 key g)) key
                          = Some (val, t3))))"
proof -
  let ?c1 = "cache (getCached c t1 key f)"
  from first_call_stores[OF assms] obtain w ts rest where
    v: "v = Some w" and c1: "?c1 = (key, w, ts) # rest" and rest: "cache_delete rest key = rest"
    and how: "if cache_has c t1 key then map_of c key = Some (w, ts) \<and> t1 - ts < CACHE_TTL
              else f t1 = (Inr w, ts)"
    by blast
  have calls: "calls (getCached c t1 key f) = (if cache_has c t1 key then 0 else 1)"
    by (simp add: getCached_def split: prod.splits sum.splits)
  have hit: "\<forall>t2 (g :: int \<Rightarrow> ('e + 'v) \<times> int). t2 - ts < CACHE_TTL \<longrightarrow>
                getCached ?c1 t2 key g = \<lparr>result = Inr (Some w), cache = ?c1, calls = 0, finished = t2\<rparr>"
    unfolding c1 using hit_again[OF rest] by blast
  have miss: "\<forall>t2 (g :: int \<Rightarrow> ('e + 'v) \<times> int). CACHE_TTL \<le> t2 - ts \<longrightarrow>
                calls (getCached ?c1 t2 key g) = 1
                \<and> (\<forall>err t3. g t2 = (Inl err, t3) \<longrightarrow> result (getCached ?c1 t2 key g) = Inl err)
                \<and> (\<forall>val t3. g t2 = (Inr val, t3) \<longrightarrow>
                      result (getCached ?c1 t2 key g) = Inr (Some val)
                      \<and> map_of (cache (getCached ?c1 t2 key g)) key = Some (val, t3))"
  proof (intro allI impI)
    fix t2 :: int and g :: "int \<Rightarrow> ('e + 'v) \<times> int"
    assume "CACHE_TTL \<le> t2 - ts"
    from miss_after_ttl[OF this, of key w rest g]
    show "calls (getCached ?c1 t2 key g) = 1
          \<and> (\<forall>err t3. g t2 = (Inl err, t3) \<longrightarrow> result (getCached ?c1 t2 key g) = Inl err)
          \<and> (\<forall>val t3. g t2 = (Inr val, t3) \<longrightarrow>
                result (getCached ?c1 t2 key g) = Inr (Some val)
                \<and> map_of (cache (getCached ?c1 t2 key g)) key = Some (val, t3))"
      unfolding c1 by (auto simp: cache_set_def take_max_Cons split: prod.splits sum.splits)
  qed
  have look: "map_of ?c1 key = Some (w, ts)" unfolding c1 by simp
  have first: "if cache_has c t1 key then calls (getCached c t1 key f) = 0
               else calls (getCached c t1 key f) = 1 \<and> f t1 = (Inr w, ts)"
    using how calls by (simp split: if_splits)
  have le: "calls (getCached c t1 key f) \<le> 1" using calls by simp
  from le v look first hit miss show ?thesis by blast
qed

theorem getCached_within_and_after_ttl_witness:
  "result (getCached [] 0 ''pipelines'' slow_seven) = Inr (Some 7)
   \<and> calls (getCached [] 0 ''pipelines'' slow_seven) = 1
   \<and> cache (getCached [] 0 ''pipelines'' slow_seven) = [(''pipelines'', 7, 5)]
   \<and> getCached [(''pipelines'', 7, 5)] 60004 ''pipelines'' slow_eight
       = \<lparr>result = Inr (Some 7), cache = [(''pipelines'', 7, 5)], calls = 0, finished = 60004\<rparr>
   \<and> calls (getCached [(''pipelines'', 7, 5)] 60005 ''pipelines'' slow_eight) = 1
   \<and> result (getCached [(''pipelines'', 7, 5)] 60005 ''pipelines'' slow_eight) = Inr (Some 8)
   \<and> map_of (cache (getCached [(''pipelines'', 7, 5)] 60005 ''pipelines'' slow_eight)) ''pipelines''
       = Some (8, 60010)"
proof -
  let ?r1 = "getCached [] 0 ''pipelines'' slow_seven"
  have h: "result ?r1 = Inr (Some 7)"
    by (simp add: getCached_def cache_has_def slow_seven_def)
  have c1: "cache ?r1 = [(''pipelines'', 7, 5)]"
    by (simp add: getCached_def cache_has_def slow_seven_def cache_set_def cache_delete_def CACHE_MAX_def)
  have n1: "calls ?r1 = 1"
    by (simp add: getCached_def cache_has_def slow_seven_def)
  from getCached_within_and_after_ttl[OF h] obtain w ts where
    look: "map_of (cache ?r1) ''pipelines'' = Some (w, ts)"
    and hit: "\<forall>t2 (g :: int \<Rightarrow> (unit + int) \<times> int). t2 - ts < CACHE_TTL \<longrightarrow>
                getCached (cache ?r1) t2 ''pipelines'' g
                  = \<lparr>result = Inr (Some w), cache = cache ?r1, calls = 0, finished = t2\<rparr>"
    and miss: "\<forall>t2 (g :: int \<Rightarrow> (unit + int) \<times> int). CACHE_TTL \<le> t2 - ts \<longrightarrow>
                calls (getCached (cache ?r1) t2 ''pipelines'' g) = 1
                \<and> (\<forall>err t3. g t2 = (Inl err, t3) \<longrightarrow>
                      result (getCached (cache ?r1) t2 ''pipelines'' g) = Inl err)
                \<and> (\<forall>val t3. g t2 = (Inr val, t3) \<longrightarrow>
                      result (getCached (cache ?r1) t2 ''pipelines'' g) = Inr (Some val)
                      \<and> map_of (cache (getCached (cache ?r1) t2 ''pipelines'' g)) ''pipelines''
                          = Some (val, t3))"
    by blast
  from look have w: "w = 7" and ts: "ts = 5" unfolding c1 by simp_all
  have a: "getCached [(''pipelines'', 7, 5)] 60004 ''pipelines'' slow_eight
       = \<lparr>result = Inr (Some 7), cache = [(''pipelines'', 7, 5)], calls = 0, finished = 60004\<rparr>"
    using hit[rule_format, of 60004 slow_eight] unfolding c1 w ts by (simp add: CACHE_TTL_def)
  have g: "slow_eight 60005 = (Inr 8, 60010)" by (simp add: slow_eight_def)
  have b: "calls (getCached [(''pipelines'', 7, 5)] 60005 ''pipelines'' slow_eight) = 1
     \<and> result (getCached [(''pipelines'', 7, 5)] 60005 ''pipelines'' slow_eight) = Inr (Some 8)
     \<and> map_of (cache (getCached [(''pipelines'', 7, 5)] 60005 ''pipelines'' slow_eight)) ''pipelines''
         = Some (8, 60010)"
    using miss[rule_format, of 60005 slow_eight] g unfolding c1 w ts by (simp add: CACHE_TTL_def)
  from h n1 c1 a b show ?thesis by blast
qed

text \<open>
  C1 as stated, for every compute function, fails for one that rejects: the
  call stores nothing, so a second call with the same key 10 ms later, well
  inside the 60 seconds, invokes the compute function a second time.
\<close>

theorem getCached_rejecting_compute_counterexample:
  "calls (getCached [] 0 ''pipelines'' always_rejects) = 1
   \<and> result (getCached [] 0 ''pipelines'' always_rejects) = Inl ()
   \<and> cache (getCached [] 0 ''pipelines'' always_rejects) = []
   \<and> finished (getCached [] 0 ''pipelines'' always_rejects) = 5
   \<and> calls (getCached (cache (getCached [] 0 ''pipelines'' always_rejects)) 10 ''pipelines''
         always_rejects) = 1"
  by (simp add: getCached_def cache_has_def always_rejects_def)

section \<open>Properties of the metrics aggregation\<close>

lemma foldl_price: "foldl (\<lambda>sum l. sum + price_or_0 l) a ls = a + sum_list (map price_or_0 ls)"
  by (induction ls arbitrary: a) simp_all

lemma round_scaled:
  fixes y :: rat
  assumes "0 < p"
  shows "\<bar>of_int \<lfloor>y * p + 1 / 2\<rfloor> / p - y\<bar> \<le> 1 / (2 * p)"
proof -
  define r :: rat where "r = of_int \<lfloor>y * p + 1 / 2\<rfloor>"
  have a: "\<bar>r - y * p\<bar> \<le> 1 / 2"
    using of_int_round_abs_le[of "y * p"] by (simp add: r_def round_def)
  have "r / p - y = (r - y * p) / p"
    using assms by (simp add: field_simps)
  then have "\<bar>r / p - y\<bar> = \<bar>r - y * p\<bar> / p"
    using assms by (simp add: abs_divide)
  also have "\<dots> \<le> (1 / 2) / p"
    using a assms by (intro divide_right_mono) simp_all
  finally show ?thesis by (simp add: r_def)
qed

lemma toFixed_close: "\<bar>toFixed x d - x\<bar> \<le> 1 / (2 * 10 ^ d)"
proof (cases "x < 0")
  case True
  have "\<bar>toFixed x d - x\<bar> = \<bar>of_int \<lfloor>(- x) * 10 ^ d + 1 / 2\<rfloor> / 10 ^ d - (- x)\<bar>"
    using True by (simp add: toFixed_def abs_minus_commute add.commute)
  then show ?thesis using round_scaled[of "10 ^ d" "- x"] by simp
next
  case False
  then show ?thesis using round_scaled[of "10 ^ d" x] by (simp add: toFixed_def)
qed

lemma toFixed_decimal: "\<exists>n::int. toFixed x d = of_int n / 10 ^ d"
proof (cases "x < 0")
  case True
  then have "toFixed x d = of_int (- \<lfloor>(- x) * 10 ^ d + 1 / 2\<rfloor>) / 10 ^ d"
    by (simp add: toFixed_def)
  then show ?thesis by blast
next
  case False
  then show ?thesis by (auto simp: toFixed_def)
qed

lemma floor_half: "\<lfloor>rat_of_int m + 1 / 2\<rfloor> = m"
  by (rule floor_unique) simp_all

lemma toFixed_of_int: "toFixed (of_int n) d = of_int n"
proof -
  have a: "\<lfloor>rat_of_int k * 10 ^ d + 1 / 2\<rfloor> = k * 10 ^ d" for k
    using floor_half[of "k * 10 ^ d"] by simp
  show ?thesis
    using a[of n] a[of "- n"] by (simp add: toFixed_def)
qed

text \<open>
  C4.  For every list of created leads and every list of closed leads the
  metrics are: created = number of created leads; won and lost = number of
  closed leads with status 142 and 143; active = number of created leads with
  neither status; revenue_won = sum of the prices of the won leads, an absent
  price counting 0; conversion_rate = 0 when nothing was created, otherwise
  won / created * 100 rounded to a multiple of 0.0001 (at most 0.00005 away);
  avg_ticket = 0 when nothing was won, otherwise revenue_won / won rounded to a
  multiple of 0.01 (at most 0.005 away); the time-to-first-touch field is null.
  With created = 10, won = 3 and revenue_won = 300 the conversion rate is 30
  and the average ticket 100.
\<close>

theorem metrics_of_counts_and_rates:
  "leads_created (metrics_of createdLeads closedLeads) = length createdLeads
   \<and> leads_won (metrics_of createdLeads closedLeads)
       = length (filter (\<lambda>l. status_id l = 142) closedLeads)
   \<and> leads_lost (metrics_of createdLeads closedLeads)
       = length (filter (\<lambda>l. status_id l = 143) closedLeads)
   \<and> active_leads (metrics_of createdLeads closedLeads)
       = length (filter (\<lambda>l. status_id l \<noteq> 142 \<and> status_id l \<noteq> 143) createdLeads)
   \<and> revenue_won (metrics_of createdLeads closedLeads)
       = sum_list (map price_or_0 (filter (\<lambda>l. status_id l = 142) closedLeads))
   \<and> (\<forall>l. price_or_0 l = (case price l of None \<Rightarrow> 0 | Some p \<Rightarrow> p))
   \<and> (length createdLeads = 0 \<longrightarrow> conversion_rate (metrics_of createdLeads closedLeads) = 0)
   \<and> (0 < length createdLeads \<longrightarrow>
        \<bar>conversion_rate (metrics_of createdLeads closedLeads)
           - of_nat (leads_won (metrics_of createdLeads closedLeads)) / of_nat (length createdLeads) * 100\<bar>
          \<le> 1 / (2 * 10 ^ 4)
        \<and> (\<exists>n::int. conversion_rate (metrics_of createdLeads closedLeads) = of_int n / 10 ^ 4))
   \<and> (leads_won (metrics_of createdLeads closedLeads) = 0 \<longrightarrow>
        avg_ticket (metrics_of createdLeads closedLeads) = 0)
   \<and> (0 < leads_won (metrics_of createdLeads closedLeads) \<longrightarrow>
        \<bar>avg_ticket (metrics_of createdLeads closedLeads)
           - of_int (revenue_won (metrics_of createdLeads closedLeads))
             / of_nat (leads_won (metrics_of createdLeads closedLeads))\<bar>
          \<le> 1 / (2 * 10 ^ 2)
        \<and> (\<exists>n::int. avg_ticket (metrics_of createdLeads closedLeads) = of_int n / 10 ^ 2))
   \<and> time_to_first_touch_avg_minutes (metrics_of createdLeads closedLeads) = None
   \<and> (length createdLeads = 10 \<and> leads_won (metrics_of createdLeads closedLeads) = 3
        \<and> revenue_won (metrics_of createdLeads closedLeads) = 300 \<longrightarrow>
        conversion_rate (metrics_of createdLeads closedLeads) = 30
        \<and> avg_ticket (metrics_of createdLeads closedLeads) = 100)"
proof -
  let ?m = "metrics_of createdLeads closedLeads"
  let ?won = "length (filter (\<lambda>l. status_id l = 142) closedLeads)"
  let ?rev = "sum_list (map price_or_0 (filter (\<lambda>l. status_id l = 142) closedLeads))"
  have created: "leads_created ?m = length createdLeads"
    and won: "leads_won ?m = ?won"
    and lost: "leads_lost ?m = length (filter (\<lambda>l. status_id l = 143) closedLeads)"
    and active: "active_leads ?m
                   = length (filter (\<lambda>l. status_id l \<noteq> 142 \<and> status_id l \<noteq> 143) createdLeads)"
    and rev: "revenue_won ?m = ?rev"
    and ttft: "time_to_first_touch_avg_minutes ?m = None"
    by (simp_all add: metrics_of_def Let_def foldl_price)
  have conv: "conversion_rate ?m
                = toFixed (if 0 < length createdLeads
                           then of_nat ?won / of_nat (length createdLeads) * 100 else 0) 4"
    by (simp add: metrics_of_def Let_def)
  have avg: "avg_ticket ?m = toFixed (if 0 < ?won then of_int ?rev / of_nat ?won else 0) 2"
    by (simp add: metrics_of_def Let_def foldl_price)
  have zero: "toFixed 0 d = 0" for d
    using toFixed_of_int[of 0 d] by simp
  have price: "\<forall>l. price_or_0 l = (case price l of None \<Rightarrow> 0 | Some p \<Rightarrow> p)"
    by (simp add: price_or_0_def split: option.splits)
  have c0: "length createdLeads = 0 \<longrightarrow> conversion_rate ?m = 0"
    unfolding conv by (simp add: zero)
  have c1: "0 < length createdLeads \<longrightarrow>
        \<bar>conversion_rate ?m - of_nat (leads_won ?m) / of_nat (length createdLeads) * 100\<bar>
          \<le> 1 / (2 * 10 ^ 4)
        \<and> (\<exists>n::int. conversion_rate ?m = of_int n / 10 ^ 4)"
  proof (intro impI conjI)
    assume "0 < length createdLeads"
    then have eq: "conversion_rate ?m = toFixed (of_nat ?won / of_nat (length createdLeads) * 100) 4"
      unfolding conv by (simp only: if_True)
    show "\<bar>conversion_rate ?m - of_nat (leads_won ?m) / of_nat (length createdLeads) * 100\<bar>
            \<le> 1 / (2 * 10 ^ 4)"
      unfolding won eq by (rule toFixed_close)
    show "\<exists>n::int. conversion_rate ?m = of_int n / 10 ^ 4"
      unfolding eq by (rule toFixed_decimal)
  qed
  have a0: "leads_won ?m = 0 \<longrightarrow> avg_ticket ?m = 0"
    unfolding won avg by (simp add: zero)
  have a1: "0 < leads_won ?m \<longrightarrow>
        \<bar>avg_ticket ?m - of_int (revenue_won ?m) / of_nat (leads_won ?m)\<bar> \<le> 1 / (2 * 10 ^ 2)
        \<and> (\<exists>n::int. avg_ticket ?m = of_int n / 10 ^ 2)"
  proof (intro impI conjI)
    assume "0 < leads_won ?m"
    then have "0 < ?won" unfolding won .
    then have eq: "avg_ticket ?m = toFixed (of_int ?rev / of_nat ?won) 2"
      unfolding avg by (simp only: if_True)
    show "\<bar>avg_ticket ?m - of_int (revenue_won ?m) / of_nat (leads_won ?m)\<bar> \<le> 1 / (2 * 10 ^ 2)"
      unfolding won rev eq by (rule toFixed_close)
    show "\<exists>n::int. avg_ticket ?m = of_int n / 10 ^ 2"
      unfolding eq by (rule toFixed_decimal)
  qed
  have ex: "length createdLeads = 10 \<and> leads_won ?m = 3 \<and> revenue_won ?m = 300 \<longrightarrow>
        conversion_rate ?m = 30 \<and> avg_ticket ?m = 100"
  proof
    assume h: "length createdLeads = 10 \<and> leads_won ?m = 3 \<and> revenue_won ?m = 300"
    then have "conversion_rate ?m = toFixed (of_int 30) 4"
      unfolding won conv by simp
    moreover from h have "avg_ticket ?m = toFixed (of_int 100) 2"
      unfolding won rev avg by simp
    ultimately show "conversion_rate ?m = 30 \<and> avg_ticket ?m = 100"
      by (simp only: toFixed_of_int) simp
  qed
  from created won lost active rev price c0 c1 a0 a1 ttft ex show ?thesis
    by (intro conjI)
qed

theorem metrics_of_counts_and_rates_witness:
  "length (replicate 10 open_lead) = 10
   \<and> leads_won (metrics_of (replicate 10 open_lead) [won_lead, lost_lead, won_lead, won_lead]) = 3
   \<and> revenue_won (metrics_of (replicate 10 open_lead) [won_lead, lost_lead, won_lead, won_lead]) = 300
   \<and> conversion_rate (metrics_of (replicate 10 open_lead) [won_lead, lost_lead, won_lead, won_lead]) = 30
   \<and> avg_ticket (metrics_of (replicate 10 open_lead) [won_lead, lost_lead, won_lead, won_lead]) = 100
   \<and> conversion_rate (metrics_of [] [won_lead]) = 0
   \<and> avg_ticket (metrics_of [open_lead] [lost_lead]) = 0"
proof -
  let ?m = "metrics_of (replicate 10 open_lead) [won_lead, lost_lead, won_lead, won_lead]"
  note T = metrics_of_counts_and_rates[of "replicate 10 open_lead" "[won_lead, lost_lead, won_lead, won_lead]"]
  have n: "length (replicate 10 open_lead) = 10" by simp
  have w: "leads_won ?m = 3"
    using T by (simp add: won_lead_def lost_lead_def)
  have r: "revenue_won ?m = 300"
    using T by (simp add: won_lead_def lost_lead_def price_or_0_def)
  from T n w r have e: "conversion_rate ?m = 30 \<and> avg_ticket ?m = 100"
    by blast
  have z: "conversion_rate (metrics_of [] [won_lead]) = 0"
    using metrics_of_counts_and_rates[of "[]" "[won_lead]"] by simp
  have "leads_won (metrics_of [open_lead] [lost_lead]) = 0"
    using metrics_of_counts_and_rates[of "[open_lead]" "[lost_lead]"] by (simp add: lost_lead_def)
  then have a: "avg_ticket (metrics_of [open_lead] [lost_lead]) = 0"
    using metrics_of_counts_and_rates[of "[open_lead]" "[lost_lead]"] by blast
  from n w r e z a show ?thesis by blast
qed

section \<open>Properties of the funnel aggregation\<close>

lemma first_occurrences_snoc:
  "first_occurrences (xs @ [x]) = (if x \<in> set xs then first_occurrences xs else first_occurrences xs @ [x])"
  by (simp add: first_occurrences_def)

lemma set_first_occurrences [simp]: "set (first_occurrences xs) = set xs"
  by (simp add: first_occurrences_def)

lemma own_stage_names_snoc:
  "own_stage_names (leads @ [l]) =
     (if stage_label l \<in> set object_prototype_names \<or> stage_label l \<in> stage_label ` set leads
      then own_stage_names leads else own_stage_names leads @ [stage_label l])"
  by (simp add: own_stage_names_def first_occurrences_snoc)

lemma set_own_stage_names:
  "set (own_stage_names leads) = stage_label ` set leads - set object_prototype_names"
  by (auto simp: own_stage_names_def)

lemma stage_of_snoc:
  "stage_of (leads @ [l]) name =
     (if name = stage_label l
      then (stage_of leads name)\<lparr>count := count (stage_of leads name) + 1,
                                 value_sum := value_sum (stage_of leads name) + price_or_0 l\<rparr>
      else stage_of leads name)"
  by (simp add: stage_of_def)

lemma stage_of_fresh:
  "name \<notin> stage_label ` set leads \<Longrightarrow> stage_of leads name = \<lparr>stage_name = name, count = 0, value_sum = 0\<rparr>"
proof -
  assume "name \<notin> stage_label ` set leads"
  then have "filter (\<lambda>l. stage_label l = name) leads = []"
    by (auto simp: filter_empty_conv)
  then show ?thesis by (simp add: stage_of_def)
qed

lemma map_of_graph_None: "map_of (map (\<lambda>n. (n, g n)) ks) k = None \<longleftrightarrow> k \<notin> set ks"
  by (induction ks) auto

lemma stageMap_is_graph:
  "foldl funnel_step [] leads = map (\<lambda>name. (name, stage_of leads name)) (own_stage_names leads)"
proof (induction leads rule: rev_induct)
  case Nil
  then show ?case by (simp add: own_stage_names_def first_occurrences_def)
next
  case (snoc l leads)
  let ?name = "stage_label l"
  let ?m = "map (\<lambda>name. (name, stage_of leads name)) (own_stage_names leads)"
  have step: "foldl funnel_step [] (leads @ [l]) = funnel_step ?m l"
    using snoc.IH by simp
  show ?case
  proof (cases "?name \<in> set object_prototype_names")
    case True
    have "funnel_step ?m l = ?m" using True by (simp add: funnel_step_def)
    moreover have "own_stage_names (leads @ [l]) = own_stage_names leads"
      using True by (simp add: own_stage_names_snoc)
    moreover have "\<forall>n \<in> set (own_stage_names leads). stage_of (leads @ [l]) n = stage_of leads n"
      using True by (auto simp: stage_of_snoc set_own_stage_names)
    ultimately show ?thesis unfolding step by simp
  next
    case False
    show ?thesis
    proof (cases "?name \<in> stage_label ` set leads")
      case True
      then have old: "map_of ?m ?name \<noteq> None"
        using False by (simp add: map_of_graph_None set_own_stage_names)
      have names: "own_stage_names (leads @ [l]) = own_stage_names leads"
        using True by (simp add: own_stage_names_snoc)
      show ?thesis
        unfolding step names using True False
        by (simp add: funnel_step_def Let_def map_of_graph_None set_own_stage_names stage_of_snoc)
    next
      case new: False
      then have fresh: "map_of ?m ?name = None"
        by (simp add: map_of_graph_None set_own_stage_names)
      have names: "own_stage_names (leads @ [l]) = own_stage_names leads @ [?name]"
        using new False by (simp add: own_stage_names_snoc)
      show ?thesis
        unfolding step names using new False stage_of_fresh[OF new]
        by (simp add: funnel_step_def Let_def map_of_graph_None set_own_stage_names stage_of_snoc)
    qed
  qed
qed

lemma insort_key_graph:
  "insort_key (\<lambda>e. f (fst e)) (x, g x) (map (\<lambda>n. (n, g n)) ys) = map (\<lambda>n. (n, g n)) (insort_key f x ys)"
  by (induction ys) simp_all

lemma sort_key_graph:
  "sort_key (\<lambda>e. f (fst e)) (map (\<lambda>n. (n, g n)) ks) = map (\<lambda>n. (n, g n)) (sort_key f ks)"
  by (induction ks) (simp_all add: insort_key_graph)

lemma filter_graph:
  "filter (\<lambda>e. P (fst e)) (map (\<lambda>n. (n, g n)) ks) = map (\<lambda>n. (n, g n)) (filter P ks)"
  by (induction ks) simp_all

lemma object_values_graph:
  "object_values (map (\<lambda>n. (n, g n)) ks)
     = map g (sort_key int_of_digits (filter is_array_index ks) @ filter (\<lambda>k. \<not> is_array_index k) ks)"
  unfolding object_values_def
  by (simp only: filter_graph[of is_array_index] filter_graph[of "\<lambda>k. \<not> is_array_index k"]
        sort_key_graph map_append map_map comp_def snd_conv)

text \<open>
  C5 (as amended).  For every list of leads none of whose labels is the name
  of a property inherited from \<open>Object.prototype\<close>, where the label of a lead
  is the name of its nested \<open>_embedded.status\<close> when present and otherwise its
  stringified \<open>status_id\<close>: the result has one entry per distinct label, with
  the number of leads of that label and the sum of their prices (0 when
  absent), in own-property order: the labels that are array indices first, in
  ascending numeric order, then the other labels in the order of their first
  occurrence.
\<close>

theorem funnels_own_property_order:
  assumes "\<forall>l \<in> set leads. stage_label l \<notin> set object_prototype_names"
  shows "funnels leads
     = map (stage_of leads)
         (sort_key int_of_digits (filter is_array_index (first_occurrences (map stage_label leads)))
          @ filter (\<lambda>name. \<not> is_array_index name) (first_occurrences (map stage_label leads)))"
proof -
  have "own_stage_names leads = first_occurrences (map stage_label leads)"
    unfolding own_stage_names_def using assms by (intro filter_True) auto
  then show ?thesis
    by (simp only: funnels_def stageMap_is_graph object_values_graph)
qed

theorem funnels_own_property_order_witness:
  "funnels [new_100, new_50, five_0]
     = [\<lparr>stage_name = ''5'', count = 1, value_sum = 0\<rparr>,
        \<lparr>stage_name = ''New'', count = 2, value_sum = 150\<rparr>]"
proof -
  have h: "\<forall>l \<in> set [new_100, new_50, five_0]. stage_label l \<notin> set object_prototype_names"
    by code_simp
  have rhs: "map (stage_of [new_100, new_50, five_0])
         (sort_key int_of_digits
            (filter is_array_index (first_occurrences (map stage_label [new_100, new_50, five_0])))
          @ filter (\<lambda>name. \<not> is_array_index name)
              (first_occurrences (map stage_label [new_100, new_50, five_0])))
       = [\<lparr>stage_name = ''5'', count = 1, value_sum = 0\<rparr>,
          \<lparr>stage_name = ''New'', count = 2, value_sum = 150\<rparr>]"
    by code_simp
  from funnels_own_property_order[OF h] rhs show ?thesis by (rule trans)
qed

text \<open>
  C5 as stated fails on its own example: the label 5 of the third lead is an
  array index, so its entry comes before the entry of New.
\<close>

theorem funnels_insertion_order_counterexample:
  "funnels [new_100, new_50, five_0]
     = [\<lparr>stage_name = ''5'', count = 1, value_sum = 0\<rparr>,
        \<lparr>stage_name = ''New'', count = 2, value_sum = 150\<rparr>]
   \<and> funnels [new_100, new_50, five_0]
     \<noteq> [\<lparr>stage_name = ''New'', count = 2, value_sum = 150\<rparr>,
        \<lparr>stage_name = ''5'', count = 1, value_sum = 0\<rparr>]"
  by code_simp

section \<open>Properties of the task bucketing\<close>

lemma tasks_step_counts:
  "tasks_step tz now b t =
     \<lparr>overdue = overdue b + (if is_overdue now t then 1 else 0),
      today = today b + (if is_today tz now t then 1 else 0),
      next48h = next48h b + (if is_next48h tz now t then 1 else 0)\<rparr>"
  by (cases "complete_till_at t")
     (auto simp: tasks_step_def is_overdue_def is_today_def is_next48h_def due_of_def Let_def)

lemma foldl_tasks_step:
  "foldl (tasks_step tz now) b tasks =
     \<lparr>overdue = overdue b + length (filter (is_overdue now) tasks),
      today = today b + length (filter (is_today tz now) tasks),
      next48h = next48h b + length (filter (is_next48h tz now) tasks)\<rparr>"
proof (induction tasks arbitrary: b)
  case Nil
  then show ?case by simp
next
  case (Cons t tasks)
  have "foldl (tasks_step tz now) b (t # tasks) = foldl (tasks_step tz now) (tasks_step tz now b t) tasks"
    by simp
  also have "\<dots> =
     \<lparr>overdue = overdue (tasks_step tz now b t) + length (filter (is_overdue now) tasks),
      today = today (tasks_step tz now b t) + length (filter (is_today tz now) tasks),
      next48h = next48h (tasks_step tz now b t) + length (filter (is_next48h tz now) tasks)\<rparr>"
    by (rule Cons.IH)
  also have "\<dots> =
     \<lparr>overdue = overdue b + length (filter (is_overdue now) (t # tasks)),
      today = today b + length (filter (is_today tz now) (t # tasks)),
      next48h = next48h b + length (filter (is_next48h tz now) (t # tasks))\<rparr>"
    by (simp add: tasks_step_counts)
  finally show ?case .
qed

text \<open>
  C8 (as amended).  For every list of incomplete tasks and every current time
  the three counts are the numbers of tasks that are overdue (due strictly
  before now), due today (not overdue, due on the local calendar day of now)
  and due in the next 48 hours (neither of these, due at most 48 hours after
  now).  A task without a due time is in none of the three; a task with a due
  time is in exactly one of four classes, the three buckets and the class of
  the tasks due on a later day more than 48 hours after now, which is counted
  nowhere.
\<close>

theorem tasks_buckets_first_match:
  "tasks_buckets tz now tasks =
     \<lparr>overdue = length (filter (is_overdue now) tasks),
      today = length (filter (is_today tz now) tasks),
      next48h = length (filter (is_next48h tz now) tasks)\<rparr>
   \<and> (if due_of t = None then \<not> is_overdue now t \<and> \<not> is_today tz now t \<and> \<not> is_next48h tz now t
      else (if is_overdue now t then 1 else 0) + (if is_today tz now t then 1 else 0)
           + (if is_next48h tz now t then 1 else 0) + (if is_later tz now t then 1 else 0) = (1::nat))
   \<and> overdue (tasks_buckets tz now tasks) + today (tasks_buckets tz now tasks)
       + next48h (tasks_buckets tz now tasks) + length (filter (is_later tz now) tasks)
       = length (filter (\<lambda>t. due_of t \<noteq> None) tasks)"
proof (intro conjI)
  show eq: "tasks_buckets tz now tasks =
     \<lparr>overdue = length (filter (is_overdue now) tasks),
      today = length (filter (is_today tz now) tasks),
      next48h = length (filter (is_next48h tz now) tasks)\<rparr>"
    by (simp add: tasks_buckets_def foldl_tasks_step)
  show "if due_of t = None then \<not> is_overdue now t \<and> \<not> is_today tz now t \<and> \<not> is_next48h tz now t
      else (if is_overdue now t then 1 else 0) + (if is_today tz now t then 1 else 0)
           + (if is_next48h tz now t then 1 else 0) + (if is_later tz now t then 1 else 0) = (1::nat)"
    by (cases "due_of t") (auto simp: is_overdue_def is_today_def is_next48h_def is_later_def)
  have one: "(if is_overdue now t then 1 else 0) + (if is_today tz now t then 1 else 0)
           + (if is_next48h tz now t then 1 else 0) + (if is_later tz now t then 1 else 0)
           = (if due_of t \<noteq> None then 1 else (0::nat))" for t
    by (cases "due_of t") (auto simp: is_overdue_def is_today_def is_next48h_def is_later_def)
  have "length (filter (is_overdue now) ts) + length (filter (is_today tz now) ts)
          + length (filter (is_next48h tz now) ts) + length (filter (is_later tz now) ts)
          = length (filter (\<lambda>t. due_of t \<noteq> None) ts)" for ts
  proof (induction ts)
    case Nil
    then show ?case by simp
  next
    case (Cons a ts)
    then show ?case using one[of a] by (simp split: if_splits)
  qed
  then show "overdue (tasks_buckets tz now tasks) + today (tasks_buckets tz now tasks)
       + next48h (tasks_buckets tz now tasks) + length (filter (is_later tz now) tasks)
       = length (filter (\<lambda>t. due_of t \<noteq> None) tasks)"
    unfolding eq by simp
qed

theorem tasks_buckets_first_match_witness:
  "tasks_buckets 0 noon [due_10h_ago, due_later_today, due_in_30h, no_due]
     = \<lparr>overdue = 1, today = 1, next48h = 1\<rparr>
   \<and> is_overdue noon due_10h_ago \<and> is_today 0 noon due_later_today \<and> is_next48h 0 noon due_in_30h
   \<and> due_of no_due = None"
proof -
  have a: "is_overdue noon due_10h_ago \<and> \<not> is_overdue noon due_later_today
           \<and> \<not> is_overdue noon due_in_30h \<and> \<not> is_overdue noon no_due"
    by (simp add: is_overdue_def due_of_def noon_def due_10h_ago_def due_later_today_def
          due_in_30h_def no_due_def)
  have b: "\<not> is_today 0 noon due_10h_ago \<and> is_today 0 noon due_later_today
           \<and> \<not> is_today 0 noon due_in_30h \<and> \<not> is_today 0 noon no_due"
    by (simp add: is_today_def due_of_def noon_def due_10h_ago_def due_later_today_def
          due_in_30h_def no_due_def local_day_def DAY_MS_def)
  have c: "\<not> is_next48h 0 noon due_10h_ago \<and> \<not> is_next48h 0 noon due_later_today
           \<and> is_next48h 0 noon due_in_30h \<and> \<not> is_next48h 0 noon no_due"
    by (simp add: is_next48h_def due_of_def noon_def due_10h_ago_def due_later_today_def
          due_in_30h_def no_due_def local_day_def DAY_MS_def)
  have d: "due_of no_due = None" by (simp add: due_of_def no_due_def)
  from tasks_buckets_first_match[of 0 noon "[due_10h_ago, due_later_today, due_in_30h, no_due]" no_due]
  have "tasks_buckets 0 noon [due_10h_ago, due_later_today, due_in_30h, no_due]
     = \<lparr>overdue = 1, today = 1, next48h = 1\<rparr>"
    using a b c by simp
  with a b c d show ?thesis by blast
qed

text \<open>
  C8 as stated fails for a task due in 72 hours: it has a due timestamp and is
  counted in no bucket.
\<close>

theorem tasks_exactly_one_bucket_counterexample:
  "due_of due_in_72h = Some 1705147200000
   \<and> tasks_buckets 0 noon [due_in_72h] = \<lparr>overdue = 0, today = 0, next48h = 0\<rparr>"
  by (simp add: tasks_buckets_def tasks_step_def due_of_def due_in_72h_def noon_def
        local_day_def DAY_MS_def)

section \<open>Properties of the time-series handler\<close>

lemma series_put_zero:
  "list_all (\<lambda>e. snd e = 0) s \<Longrightarrow> list_all (\<lambda>e. snd e = 0) (series_put s k 0)"
  by (auto simp: series_put_def list_all_iff)

lemma foldl_series_put_zero:
  "list_all (\<lambda>e. snd e = 0) s \<Longrightarrow>
   list_all (\<lambda>e. snd e = 0) (foldl (\<lambda>series i. series_put series (f i) 0) s is)"
  by (induction "is" arbitrary: s) (simp_all add: series_put_zero)

lemma series_init_zero: "list_all (\<lambda>e. snd e = 0) (series_init tz r)"
  by (simp add: series_init_def foldl_series_put_zero split: option.splits prod.splits)

lemma compute_unknown_metric:
  "metric \<noteq> ''leads_created'' \<Longrightarrow> metric \<noteq> ''leads_won'' \<Longrightarrow> metric \<noteq> ''revenue_won'' \<Longrightarrow>
   timeseries_compute parseDate tz upstream metric rng pipeline_id user_id now
     = (Inr (series_init tz (parseRange parseDate tz now rng None None)), [])"
  by (simp add: timeseries_compute_def Let_def)

text \<open>
  C9 (as amended).  When the metric parameter is present, not empty and none of
  leads_created, leads_won, revenue_won, the response has status 200 and no
  lead fetch is made; on a cache miss the body is the day series built for the
  resolved range, all of whose values are 0, and it is stored under the key of
  the request; on a cache hit the body is the stored value.  When the metric
  parameter is absent or empty the response is status 400 with the message
  "metric is required", the cache is untouched and no fetch is made.
\<close>

theorem timeseries_unknown_or_missing_metric:
  "((\<exists>m. q_metric q = Some m \<and> m \<noteq> [] \<and> m \<noteq> ''leads_created'' \<and> m \<noteq> ''leads_won''
          \<and> m \<noteq> ''revenue_won'') \<longrightarrow>
      status (timeseries_handler parseDate tz upstream c now q) = 200
      \<and> fetches (timeseries_handler parseDate tz upstream c now q) = []
      \<and> (if cache_has c now (timeseries_key q)
          then body (timeseries_handler parseDate tz upstream c now q)
                 = Inr (fst (cache_get c now (timeseries_key q)))
          else body (timeseries_handler parseDate tz upstream c now q)
                 = Inr (Some (series_init tz (timeseries_parseRange parseDate tz now (q_range q))))
               \<and> cache_after (timeseries_handler parseDate tz upstream c now q)
                 = cache_set c now (timeseries_key q)
                     (series_init tz (timeseries_parseRange parseDate tz now (q_range q))))
      \<and> list_all (\<lambda>e. snd e = 0) (series_init tz (timeseries_parseRange parseDate tz now (q_range q))))
   \<and> (q_metric q = None \<or> q_metric q = Some [] \<longrightarrow>
        timeseries_handler parseDate tz upstream c now q
          = \<lparr>status = 400, body = Inl ''metric is required'', cache_after = c, fetches = []\<rparr>)"
proof (intro conjI impI)
  assume "\<exists>m. q_metric q = Some m \<and> m \<noteq> [] \<and> m \<noteq> ''leads_created'' \<and> m \<noteq> ''leads_won''
             \<and> m \<noteq> ''revenue_won''"
  then obtain m where m: "q_metric q = Some m" "m \<noteq> []" "m \<noteq> ''leads_created''" "m \<noteq> ''leads_won''"
    "m \<noteq> ''revenue_won''"
    by blast
  let ?res = "timeseries_handler parseDate tz upstream c now q"
  let ?s = "series_init tz (timeseries_parseRange parseDate tz now (q_range q))"
  have comp: "timeseries_compute parseDate tz upstream m
                (timeseries_range_param (q_range q)) (q_pipeline_id q) (q_user_id q) t
              = (Inr (series_init tz (timeseries_parseRange parseDate tz t (q_range q))), [])" for t
    using m by (simp add: compute_unknown_metric timeseries_parseRange_def)
  show "status ?res = 200"
    using m by (simp add: timeseries_handler_def Let_def comp getCached_def split: prod.splits)
  show "fetches ?res = []"
    using m by (simp add: timeseries_handler_def Let_def comp getCached_def split: prod.splits)
  show "if cache_has c now (timeseries_key q)
        then body ?res = Inr (fst (cache_get c now (timeseries_key q)))
        else body ?res = Inr (Some ?s) \<and> cache_after ?res = cache_set c now (timeseries_key q) ?s"
    using m by (simp add: timeseries_handler_def Let_def comp getCached_def split: prod.splits)
  show "list_all (\<lambda>e. snd e = 0) ?s"
    by (rule series_init_zero)
next
  assume "q_metric q = None \<or> q_metric q = Some []"
  then show "timeseries_handler parseDate tz upstream c now q
          = \<lparr>status = 400, body = Inl ''metric is required'', cache_after = c, fetches = []\<rparr>"
    by (auto simp: timeseries_handler_def)
qed

text \<open>Evaluations at the concrete inputs.\<close>

lemma civil_19731: "civil_from_days 19731 = (2024, 1, 9)"
  by code_simp

lemma civil_19732: "civil_from_days 19732 = (2024, 1, 10)"
  by code_simp

lemma digits_2024: "string_of_nat 2024 = ''2024''" and digits_1: "string_of_nat (Suc 0) = ''1''"
  and digits_9: "string_of_nat 9 = ''9''" and digits_10: "string_of_nat 10 = ''10''"
  by (simp_all add: string_of_nat.simps digit_char_def)

lemma iso_day_19731: "utc_day t = 19731 \<Longrightarrow> iso_date t = ''2024-01-09''"
  by (simp add: iso_date_def civil_19731 pad_start_def digits_2024 digits_1 digits_9)

lemma iso_day_19732: "utc_day t = 19732 \<Longrightarrow> iso_date t = ''2024-01-10''"
  by (simp add: iso_date_def civil_19732 pad_start_def digits_2024 digits_1 digits_10)

lemma iso_lead: "iso_date 1704884400000 = ''2024-01-10''"
  by (rule iso_day_19732) (simp add: utc_day_def DAY_MS_def)

lemma today_moscow:
  "parseRange parseDate moscow 1704888000000 (Some ''today'') from to
     = \<lparr>start = Some 1704834000000, end' = Some 1704920400000\<rparr>"
  by (simp add: parseRange_def local_midnight_def local_day_def moscow_def DAY_MS_def)

lemma init_moscow:
  "series_init moscow \<lparr>start = Some 1704834000000, end' = Some 1704920400000\<rparr> = [(''2024-01-09'', 0)]"
proof -
  have "utc_day (local_midnight moscow (local_day moscow 1704834000000)) = 19731"
    by (simp add: utc_day_def local_midnight_def local_day_def moscow_def DAY_MS_def)
  then have k: "iso_date (local_midnight moscow (local_day moscow 1704834000000)) = ''2024-01-09''"
    by (rule iso_day_19731)
  have d: "day_count \<lparr>start = Some 1704834000000, end' = Some 1704920400000\<rparr> = Some 1"
    by (simp add: day_count_def)
  show ?thesis
    by (simp add: series_init_def d k series_put_def)
qed

lemma today_utc:
  "parseRange parseDate 0 1704888000000 (Some ''today'') from to
     = \<lparr>start = Some 1704844800000, end' = Some 1704931200000\<rparr>"
  by (simp add: parseRange_def local_midnight_def local_day_def DAY_MS_def)

lemma yesterday_utc:
  "parseRange parseDate 0 1704888000000 (Some ''yesterday'') from to
     = \<lparr>start = Some 1704758400000, end' = Some 1704844800000\<rparr>"
  by (simp add: parseRange_def local_midnight_def local_day_def DAY_MS_def)

lemma init_utc_today:
  "series_init 0 \<lparr>start = Some 1704844800000, end' = Some 1704931200000\<rparr> = [(''2024-01-10'', 0)]"
proof -
  have "utc_day (local_midnight 0 (local_day 0 1704844800000)) = 19732"
    by (simp add: utc_day_def local_midnight_def local_day_def DAY_MS_def)
  then have k: "iso_date (local_midnight 0 (local_day 0 1704844800000)) = ''2024-01-10''"
    by (rule iso_day_19732)
  have d: "day_count \<lparr>start = Some 1704844800000, end' = Some 1704931200000\<rparr> = Some 1"
    by (simp add: day_count_def)
  show ?thesis
    by (simp add: series_init_def d k series_put_def)
qed

lemma init_utc_yesterday:
  "series_init 0 \<lparr>start = Some 1704758400000, end' = Some 1704844800000\<rparr> = [(''2024-01-09'', 0)]"
proof -
  have "utc_day (local_midnight 0 (local_day 0 1704758400000)) = 19731"
    by (simp add: utc_day_def local_midnight_def local_day_def DAY_MS_def)
  then have k: "iso_date (local_midnight 0 (local_day 0 1704758400000)) = ''2024-01-09''"
    by (rule iso_day_19731)
  have d: "day_count \<lparr>start = Some 1704758400000, end' = Some 1704844800000\<rparr> = Some 1"
    by (simp add: day_count_def)
  show ?thesis
    by (simp add: series_init_def d k series_put_def)
qed

lemma compute_utc_today:
  "parseRange parse_feb 0 1704888000000 rng None None
     = \<lparr>start = Some 1704844800000, end' = Some 1704931200000\<rparr> \<Longrightarrow>
   timeseries_compute parse_feb 0 one_lead_today ''leads_created'' rng None None 1704888000000
     = (Inr [(''2024-01-10'', 1)], [FetchLeads (Some 1704844800) (Some 1704931200) None None])"
  by (simp add: timeseries_compute_def Let_def init_utc_today one_lead_today_def iso_lead
        series_add_def toUnix_def if_truthy_def truthy_def)

theorem timeseries_unknown_or_missing_metric_witness:
  "status (timeseries_handler parse_feb 0 one_lead_today [] 1704888000000 bogus_yesterday) = 200
   \<and> fetches (timeseries_handler parse_feb 0 one_lead_today [] 1704888000000 bogus_yesterday) = []
   \<and> body (timeseries_handler parse_feb 0 one_lead_today [] 1704888000000 bogus_yesterday)
       = Inr (Some [(''2024-01-09'', 0)])
   \<and> timeseries_handler parse_feb 0 one_lead_today [] 1704888000000
         (bogus_yesterday\<lparr>q_metric := None\<rparr>)
       = \<lparr>status = 400, body = Inl ''metric is required'', cache_after = [], fetches = []\<rparr>"
proof -
  let ?res = "timeseries_handler parse_feb 0 one_lead_today [] 1704888000000 bogus_yesterday"
  let ?s = "series_init 0 (timeseries_parseRange parse_feb 0 1704888000000 (q_range bogus_yesterday))"
  note T = timeseries_unknown_or_missing_metric
  have h: "\<exists>m. q_metric bogus_yesterday = Some m \<and> m \<noteq> [] \<and> m \<noteq> ''leads_created''
             \<and> m \<noteq> ''leads_won'' \<and> m \<noteq> ''revenue_won''"
    by (simp add: bogus_yesterday_def)
  have miss: "cache_has [] 1704888000000 (timeseries_key bogus_yesterday) = False"
    by (simp add: cache_has_def)
  have s: "?s = [(''2024-01-09'', 0)]"
    by (simp add: bogus_yesterday_def timeseries_parseRange_def timeseries_range_param_def
          yesterday_utc init_utc_yesterday)
  note all = T[of bogus_yesterday parse_feb 0 one_lead_today "[]" 1704888000000, THEN conjunct1, THEN mp, OF h]
  have st: "status ?res = 200"
    by (rule all[THEN conjunct1])
  have fe: "fetches ?res = []"
    by (rule all[THEN conjunct2, THEN conjunct1])
  have "body ?res = Inr (Some ?s)"
    using all[THEN conjunct2, THEN conjunct2, THEN conjunct1] unfolding miss
    by (simp only: if_False)
  then have bo: "body ?res = Inr (Some [(''2024-01-09'', 0)])"
    unfolding s .
  have n: "q_metric (bogus_yesterday\<lparr>q_metric := None\<rparr>) = None
           \<or> q_metric (bogus_yesterday\<lparr>q_metric := None\<rparr>) = Some []" by simp
  from T[of "bogus_yesterday\<lparr>q_metric := None\<rparr>" parse_feb 0 one_lead_today "[]" 1704888000000,
         THEN conjunct2, THEN mp, OF n]
  have b: "timeseries_handler parse_feb 0 one_lead_today [] 1704888000000
             (bogus_yesterday\<lparr>q_metric := None\<rparr>)
           = \<lparr>status = 400, body = Inl ''metric is required'', cache_after = [], fetches = []\<rparr>" .
  from st fe bo b show ?thesis by blast
qed

text \<open>
  C9 as stated fails for a metric parameter that is present but empty: it is
  none of the three selectors, and the response is status 400.
\<close>

theorem timeseries_empty_metric_counterexample:
  "q_metric empty_metric = Some []
   \<and> timeseries_handler parse_feb 0 one_lead_today [] 1704888000000 empty_metric
       = \<lparr>status = 400, body = Inl ''metric is required'', cache_after = [], fetches = []\<rparr>"
  by (simp add: empty_metric_def timeseries_handler_def)

text \<open>
  C6 at a server three hours east of UTC, for the range today at
  2024-01-10 15:00 local time: the local calendar date of the request and of
  the one lead created (at 14:00 local time) is 2024-01-10, but the only key of
  the series is 2024-01-09, the UTC date of the local midnight, and the lead,
  bucketed by the UTC date of its creation, is dropped.  On a server at UTC the
  same request gives the key 2024-01-10 with value 1.
\<close>

theorem timeseries_local_day_keys_evaluation:
  "timeseries_compute parse_feb moscow one_lead_today ''leads_created'' (Some ''today'') None None
       1704888000000
     = (Inr [(''2024-01-09'', 0)], [FetchLeads (Some 1704834000) (Some 1704920400) None None])
   \<and> iso_date (1704888000000 + moscow) = ''2024-01-10''
   \<and> iso_date (1704884400 * 1000 + moscow) = ''2024-01-10''
   \<and> timeseries_compute parse_feb 0 one_lead_today ''leads_created'' (Some ''today'') None None
       1704888000000
     = (Inr [(''2024-01-10'', 1)], [FetchLeads (Some 1704844800) (Some 1704931200) None None])"
proof -
  have a: "timeseries_compute parse_feb moscow one_lead_today ''leads_created'' (Some ''today'') None None
             1704888000000
           = (Inr [(''2024-01-09'', 0)], [FetchLeads (Some 1704834000) (Some 1704920400) None None])"
    by (simp add: timeseries_compute_def Let_def today_moscow init_moscow one_lead_today_def iso_lead
          series_add_def toUnix_def if_truthy_def truthy_def)
  have b: "iso_date (1704888000000 + moscow) = ''2024-01-10''"
    by (rule iso_day_19732) (simp add: utc_day_def DAY_MS_def moscow_def)
  have c: "iso_date (1704884400 * 1000 + moscow) = ''2024-01-10''"
    by (rule iso_day_19732) (simp add: utc_day_def DAY_MS_def moscow_def)
  have d: "timeseries_compute parse_feb 0 one_lead_today ''leads_created'' (Some ''today'') None None
             1704888000000
           = (Inr [(''2024-01-10'', 1)], [FetchLeads (Some 1704844800) (Some 1704931200) None None])"
    by (rule compute_utc_today) (rule today_utc)
  from a b c d show ?thesis by blast
qed






section \<open>Range resolution of the time-series endpoint\<close>

lemma civil_first_week:
  "civil_from_days 19725 = (2024, 1, 3)" "civil_from_days 19726 = (2024, 1, 4)"
  "civil_from_days 19727 = (2024, 1, 5)" "civil_from_days 19728 = (2024, 1, 6)"
  "civil_from_days 19729 = (2024, 1, 7)" "civil_from_days 19730 = (2024, 1, 8)"
  by code_simp+

lemma digits_3_to_8:
  "string_of_nat 3 = ''3''" "string_of_nat 4 = ''4''" "string_of_nat 5 = ''5''"
  "string_of_nat 6 = ''6''" "string_of_nat 7 = ''7''" "string_of_nat 8 = ''8''"
  by (simp_all add: string_of_nat.simps digit_char_def)

lemma iso_first_week:
  "utc_day t = 19725 \<Longrightarrow> iso_date t = ''2024-01-03''"
  "utc_day t = 19726 \<Longrightarrow> iso_date t = ''2024-01-04''"
  "utc_day t = 19727 \<Longrightarrow> iso_date t = ''2024-01-05''"
  "utc_day t = 19728 \<Longrightarrow> iso_date t = ''2024-01-06''"
  "utc_day t = 19729 \<Longrightarrow> iso_date t = ''2024-01-07''"
  "utc_day t = 19730 \<Longrightarrow> iso_date t = ''2024-01-08''"
  by (simp_all add: iso_date_def civil_first_week pad_start_def digits_2024 digits_1 digits_3_to_8)

lemma seven_days_utc:
  "series_init 0 \<lparr>start = Some 1704283200000, end' = Some 1704888000000\<rparr>
     = [(''2024-01-03'', 0), (''2024-01-04'', 0), (''2024-01-05'', 0), (''2024-01-06'', 0),
        (''2024-01-07'', 0), (''2024-01-08'', 0), (''2024-01-09'', 0)]"
proof -
  have d: "day_count \<lparr>start = Some 1704283200000, end' = Some 1704888000000\<rparr> = Some 7"
    by (simp add: day_count_def)
  have u: "[0..<nat 7] = [0, 1, 2, 3, 4, 5, 6]"
    by (simp add: upt_rec)
  have c: "(case (Some (7::int), Some (1704283200000::int)) of
              (Some days, Some s) \<Rightarrow>
                foldl (\<lambda>series i. series_put series (iso_date (local_midnight 0 (local_day 0 s + int i))) 0)
                  [] [0 ..< nat days]
            | _ \<Rightarrow> [])
           = foldl (\<lambda>series i. series_put series
                      (iso_date (local_midnight 0 (local_day 0 1704283200000 + int i))) 0)
               [] [0, 1, 2, 3, 4, 5, 6]"
    unfolding u[symmetric] by simp
  have k: "iso_date (local_midnight 0 (local_day 0 1704283200000 + int 0)) = ''2024-01-03''"
    "iso_date (local_midnight 0 (local_day 0 1704283200000 + int 1)) = ''2024-01-04''"
    "iso_date (local_midnight 0 (local_day 0 1704283200000 + int 2)) = ''2024-01-05''"
    "iso_date (local_midnight 0 (local_day 0 1704283200000 + int 3)) = ''2024-01-06''"
    "iso_date (local_midnight 0 (local_day 0 1704283200000 + int 4)) = ''2024-01-07''"
    "iso_date (local_midnight 0 (local_day 0 1704283200000 + int 5)) = ''2024-01-08''"
    "iso_date (local_midnight 0 (local_day 0 1704283200000 + int 6)) = ''2024-01-09''"
    by (simp_all add: iso_first_week iso_day_19731 utc_day_def local_midnight_def local_day_def DAY_MS_def)
  show ?thesis
    unfolding series_init_def d range.simps c
    by (simp only: foldl_Cons foldl_Nil k) (simp add: series_put_def)
qed


text \<open>
  C10.  When the range query parameter is omitted, the /api/timeseries handler
  resolves the rolling window from \<open>now - 7 * 86400 s\<close> to \<open>now\<close>, of seven day
  buckets: the token it passes to the resolver resolves to that window; on a
  cache miss the fetch it makes, if the metric asks for one, is bounded by that
  window in epoch seconds, and the series in its body is built on the day
  series of that window.  The resolver itself, given an omitted token, falls
  back to the window of today (local midnight to the next local midnight).  A
  request without the range parameter is answered as the same request with
  the range 7d.
\<close>

theorem timeseries_omitted_range_is_7d:
  "parseRange parseDate tz now (timeseries_range_param None) None None
     = \<lparr>start = Some (now - 7 * 86400 * 1000), end' = Some now\<rparr>
   \<and> (q_range q = None \<and> q_metric q = Some metric \<and> metric \<noteq> []
        \<and> \<not> cache_has c now (timeseries_key q) \<longrightarrow>
        fetches (timeseries_handler parseDate tz upstream c now q)
          = (if metric = ''leads_created'' then
               [FetchLeads (Some ((now - 7 * 86400 * 1000) div 1000)) (Some (now div 1000))
                  (if_truthy (q_pipeline_id q)) (if_truthy (q_user_id q))]
             else if metric = ''leads_won'' \<or> metric = ''revenue_won'' then
               [FetchLeadsClosed (Some ((now - 7 * 86400 * 1000) div 1000)) (Some (now div 1000))
                  (if_truthy (q_pipeline_id q)) (if_truthy (q_user_id q))]
             else [])
        \<and> (metric \<noteq> ''leads_created'' \<and> metric \<noteq> ''leads_won'' \<and> metric \<noteq> ''revenue_won'' \<longrightarrow>
             body (timeseries_handler parseDate tz upstream c now q)
               = Inr (Some (series_init tz \<lparr>start = Some (now - 7 * 86400 * 1000), end' = Some now\<rparr>)))
        \<and> (\<forall>leads. metric = ''leads_created''
               \<and> upstream (FetchLeads (Some ((now - 7 * 86400 * 1000) div 1000)) (Some (now div 1000))
                              (if_truthy (q_pipeline_id q)) (if_truthy (q_user_id q))) = Inr leads \<longrightarrow>
             body (timeseries_handler parseDate tz upstream c now q)
               = Inr (Some (foldl (\<lambda>series l. series_add series (iso_date (created_at l * 1000)) 1)
                              (series_init tz \<lparr>start = Some (now - 7 * 86400 * 1000), end' = Some now\<rparr>)
                              leads)))
        \<and> (\<forall>leads. (metric = ''leads_won'' \<or> metric = ''revenue_won'')
               \<and> upstream (FetchLeadsClosed (Some ((now - 7 * 86400 * 1000) div 1000)) (Some (now div 1000))
                              (if_truthy (q_pipeline_id q)) (if_truthy (q_user_id q))) = Inr leads \<longrightarrow>
             body (timeseries_handler parseDate tz upstream c now q)
               = Inr (Some (foldl (\<lambda>series l. series_add series (iso_date (closed_at l * 1000))
                                                  (if metric = ''leads_won'' then 1 else price_or_0 l))
                              (series_init tz \<lparr>start = Some (now - 7 * 86400 * 1000), end' = Some now\<rparr>)
                              (filter (\<lambda>l. status_id l = 142) leads)))))
   \<and> day_count \<lparr>start = Some (now - 7 * 86400 * 1000), end' = Some now\<rparr> = Some 7
   \<and> parseRange parseDate tz now None from_str to_str
     = \<lparr>start = Some (local_midnight tz (local_day tz now)),
        end' = Some (local_midnight tz (local_day tz now + 1))\<rparr>
   \<and> parseRange parseDate tz now None from_str to_str
     = parseRange parseDate tz now (Some ''today'') from_str to_str
   \<and> timeseries_handler parseDate tz upstream c now (q\<lparr>q_range := None\<rparr>)
     = timeseries_handler parseDate tz upstream c now (q\<lparr>q_range := Some ''7d''\<rparr>)"
proof -
  let ?R = "\<lparr>start = Some (now - 7 * 86400 * 1000), end' = Some now\<rparr>"
  have r7: "parseRange parseDate tz now (timeseries_range_param None) None None = ?R"
    by (simp add: timeseries_range_param_def parseRange_def)
  have handler: "q_range q = None \<and> q_metric q = Some metric \<and> metric \<noteq> []
        \<and> \<not> cache_has c now (timeseries_key q) \<longrightarrow>
        fetches (timeseries_handler parseDate tz upstream c now q)
          = (if metric = ''leads_created'' then
               [FetchLeads (Some ((now - 7 * 86400 * 1000) div 1000)) (Some (now div 1000))
                  (if_truthy (q_pipeline_id q)) (if_truthy (q_user_id q))]
             else if metric = ''leads_won'' \<or> metric = ''revenue_won'' then
               [FetchLeadsClosed (Some ((now - 7 * 86400 * 1000) div 1000)) (Some (now div 1000))
                  (if_truthy (q_pipeline_id q)) (if_truthy (q_user_id q))]
             else [])
        \<and> (metric \<noteq> ''leads_created'' \<and> metric \<noteq> ''leads_won'' \<and> metric \<noteq> ''revenue_won'' \<longrightarrow>
             body (timeseries_handler parseDate tz upstream c now q) = Inr (Some (series_init tz ?R)))
        \<and> (\<forall>leads. metric = ''leads_created''
               \<and> upstream (FetchLeads (Some ((now - 7 * 86400 * 1000) div 1000)) (Some (now div 1000))
                              (if_truthy (q_pipeline_id q)) (if_truthy (q_user_id q))) = Inr leads \<longrightarrow>
             body (timeseries_handler parseDate tz upstream c now q)
               = Inr (Some (foldl (\<lambda>series l. series_add series (iso_date (created_at l * 1000)) 1)
                              (series_init tz ?R) leads)))
        \<and> (\<forall>leads. (metric = ''leads_won'' \<or> metric = ''revenue_won'')
               \<and> upstream (FetchLeadsClosed (Some ((now - 7 * 86400 * 1000) div 1000)) (Some (now div 1000))
                              (if_truthy (q_pipeline_id q)) (if_truthy (q_user_id q))) = Inr leads \<longrightarrow>
             body (timeseries_handler parseDate tz upstream c now q)
               = Inr (Some (foldl (\<lambda>series l. series_add series (iso_date (closed_at l * 1000))
                                                  (if metric = ''leads_won'' then 1 else price_or_0 l))
                              (series_init tz ?R) (filter (\<lambda>l. status_id l = 142) leads))))"
  proof (intro impI)
    assume h: "q_range q = None \<and> q_metric q = Some metric \<and> metric \<noteq> []
                 \<and> \<not> cache_has c now (timeseries_key q)"
    let ?comp = "timeseries_compute parseDate tz upstream metric (timeseries_range_param None)
                   (q_pipeline_id q) (q_user_id q) now"
    have res: "timeseries_handler parseDate tz upstream c now q
                 = (case fst ?comp of
                      Inl err \<Rightarrow> \<lparr>status = 500, body = Inl ''Failed to fetch timeseries data'',
                                   cache_after = c, fetches = snd ?comp\<rparr>
                    | Inr val \<Rightarrow> \<lparr>status = 200, body = Inr (Some val),
                                   cache_after = cache_set c now (timeseries_key q) val,
                                   fetches = snd ?comp\<rparr>)"
      using h by (simp add: timeseries_handler_def Let_def getCached_def split: sum.splits)
    have comp: "?comp =
        (if metric = ''leads_created'' then
           (case upstream (FetchLeads (Some ((now - 7 * 86400 * 1000) div 1000)) (Some (now div 1000))
                             (if_truthy (q_pipeline_id q)) (if_truthy (q_user_id q))) of
              Inl err \<Rightarrow> (Inl err,
                 [FetchLeads (Some ((now - 7 * 86400 * 1000) div 1000)) (Some (now div 1000))
                    (if_truthy (q_pipeline_id q)) (if_truthy (q_user_id q))])
            | Inr leads \<Rightarrow>
                (Inr (foldl (\<lambda>series l. series_add series (iso_date (created_at l * 1000)) 1)
                        (series_init tz ?R) leads),
                 [FetchLeads (Some ((now - 7 * 86400 * 1000) div 1000)) (Some (now div 1000))
                    (if_truthy (q_pipeline_id q)) (if_truthy (q_user_id q))]))
         else if metric = ''leads_won'' \<or> metric = ''revenue_won'' then
           (case upstream (FetchLeadsClosed (Some ((now - 7 * 86400 * 1000) div 1000)) (Some (now div 1000))
                             (if_truthy (q_pipeline_id q)) (if_truthy (q_user_id q))) of
              Inl err \<Rightarrow> (Inl err,
                 [FetchLeadsClosed (Some ((now - 7 * 86400 * 1000) div 1000)) (Some (now div 1000))
                    (if_truthy (q_pipeline_id q)) (if_truthy (q_user_id q))])
            | Inr leads \<Rightarrow>
                (Inr (foldl (\<lambda>series l. series_add series (iso_date (closed_at l * 1000))
                                           (if metric = ''leads_won'' then 1 else price_or_0 l))
                        (series_init tz ?R) (filter (\<lambda>l. status_id l = 142) leads)),
                 [FetchLeadsClosed (Some ((now - 7 * 86400 * 1000) div 1000)) (Some (now div 1000))
                    (if_truthy (q_pipeline_id q)) (if_truthy (q_user_id q))]))
         else (Inr (series_init tz ?R), []))"
      unfolding timeseries_compute_def r7 by (simp add: Let_def toUnix_def split: sum.splits)
    show "fetches (timeseries_handler parseDate tz upstream c now q)
          = (if metric = ''leads_created'' then
               [FetchLeads (Some ((now - 7 * 86400 * 1000) div 1000)) (Some (now div 1000))
                  (if_truthy (q_pipeline_id q)) (if_truthy (q_user_id q))]
             else if metric = ''leads_won'' \<or> metric = ''revenue_won'' then
               [FetchLeadsClosed (Some ((now - 7 * 86400 * 1000) div 1000)) (Some (now div 1000))
                  (if_truthy (q_pipeline_id q)) (if_truthy (q_user_id q))]
             else [])
        \<and> (metric \<noteq> ''leads_created'' \<and> metric \<noteq> ''leads_won'' \<and> metric \<noteq> ''revenue_won'' \<longrightarrow>
             body (timeseries_handler parseDate tz upstream c now q) = Inr (Some (series_init tz ?R)))
        \<and> (\<forall>leads. metric = ''leads_created''
               \<and> upstream (FetchLeads (Some ((now - 7 * 86400 * 1000) div 1000)) (Some (now div 1000))
                              (if_truthy (q_pipeline_id q)) (if_truthy (q_user_id q))) = Inr leads \<longrightarrow>
             body (timeseries_handler parseDate tz upstream c now q)
               = Inr (Some (foldl (\<lambda>series l. series_add series (iso_date (created_at l * 1000)) 1)
                              (series_init tz ?R) leads)))
        \<and> (\<forall>leads. (metric = ''leads_won'' \<or> metric = ''revenue_won'')
               \<and> upstream (FetchLeadsClosed (Some ((now - 7 * 86400 * 1000) div 1000)) (Some (now div 1000))
                              (if_truthy (q_pipeline_id q)) (if_truthy (q_user_id q))) = Inr leads \<longrightarrow>
             body (timeseries_handler parseDate tz upstream c now q)
               = Inr (Some (foldl (\<lambda>series l. series_add series (iso_date (closed_at l * 1000))
                                                  (if metric = ''leads_won'' then 1 else price_or_0 l))
                              (series_init tz ?R) (filter (\<lambda>l. status_id l = 142) leads))))"
      unfolding res comp by (auto split: sum.splits)
  qed
  have dc: "day_count ?R = Some 7"
    by (simp add: day_count_def)
  have today: "parseRange parseDate tz now None from_str to_str
     = \<lparr>start = Some (local_midnight tz (local_day tz now)),
        end' = Some (local_midnight tz (local_day tz now + 1))\<rparr>"
    "parseRange parseDate tz now None from_str to_str
     = parseRange parseDate tz now (Some ''today'') from_str to_str"
    by (simp_all add: parseRange_def)
  have k: "timeseries_key (q\<lparr>q_range := None\<rparr>) = timeseries_key (q\<lparr>q_range := Some ''7d''\<rparr>)"
    by (simp add: timeseries_key_def timeseries_range_param_def)
  have r: "timeseries_range_param (q_range (q\<lparr>q_range := None\<rparr>))
             = timeseries_range_param (q_range (q\<lparr>q_range := Some ''7d''\<rparr>))"
    by (simp add: timeseries_range_param_def)
  have f: "q_metric (q\<lparr>q_range := None\<rparr>) = q_metric (q\<lparr>q_range := Some ''7d''\<rparr>)"
    "q_pipeline_id (q\<lparr>q_range := None\<rparr>) = q_pipeline_id (q\<lparr>q_range := Some ''7d''\<rparr>)"
    "q_user_id (q\<lparr>q_range := None\<rparr>) = q_user_id (q\<lparr>q_range := Some ''7d''\<rparr>)"
    by simp_all
  have same: "timeseries_handler parseDate tz upstream c now (q\<lparr>q_range := None\<rparr>)
             = timeseries_handler parseDate tz upstream c now (q\<lparr>q_range := Some ''7d''\<rparr>)"
    unfolding timeseries_handler_def k r f ..
  from r7 handler dc today same show ?thesis
    by (intro conjI)
qed


theorem timeseries_omitted_range_is_7d_witness:
  "q_range created_no_range = None
   \<and> fetches (timeseries_handler parse_feb 0 one_lead_today [] 1704888000000 created_no_range)
       = [FetchLeads (Some 1704283200) (Some 1704888000) None None]
   \<and> body (timeseries_handler parse_feb 0 one_lead_today [] 1704888000000 created_no_range)
       = Inr (Some [(''2024-01-03'', 0), (''2024-01-04'', 0), (''2024-01-05'', 0), (''2024-01-06'', 0),
                    (''2024-01-07'', 0), (''2024-01-08'', 0), (''2024-01-09'', 0)])"
proof -
  let ?res = "timeseries_handler parse_feb 0 one_lead_today [] 1704888000000 created_no_range"
  let ?lead = "\<lparr>status_id = 7, price = Some 40, created_at = 1704884400, closed_at = 0,
                embedded_status = None\<rparr>"
  have h: "q_range created_no_range = None \<and> q_metric created_no_range = Some ''leads_created''
           \<and> ''leads_created'' \<noteq> []
           \<and> \<not> cache_has [] 1704888000000 (timeseries_key created_no_range)"
    by (simp add: created_no_range_def cache_has_def)
  note all = timeseries_omitted_range_is_7d[where parseDate = parse_feb and tz = 0
      and upstream = one_lead_today and c = "[]" and now = 1704888000000 and q = created_no_range
      and metric = "''leads_created''", THEN conjunct2, THEN conjunct1, THEN mp, OF h]
  have p: "if_truthy (q_pipeline_id created_no_range) = None"
    "if_truthy (q_user_id created_no_range) = None"
    by (simp_all add: created_no_range_def if_truthy_def truthy_def)
  have fe: "fetches ?res = [FetchLeads (Some 1704283200) (Some 1704888000) None None]"
    using all[THEN conjunct1] by (simp add: p)
  have up: "one_lead_today (FetchLeads (Some ((1704888000000 - 7 * 86400 * 1000) div 1000))
              (Some (1704888000000 div 1000)) (if_truthy (q_pipeline_id created_no_range))
              (if_truthy (q_user_id created_no_range))) = Inr [?lead]"
    by (simp add: one_lead_today_def)
  have "body ?res
          = Inr (Some (foldl (\<lambda>series l. series_add series (iso_date (created_at l * 1000)) 1)
                         (series_init 0 \<lparr>start = Some (1704888000000 - 7 * 86400 * 1000),
                                          end' = Some 1704888000000\<rparr>)
                         [?lead]))"
    using all[THEN conjunct2, THEN conjunct2, THEN conjunct1, THEN spec, of "[?lead]"] up by simp
  then have bo: "body ?res
       = Inr (Some [(''2024-01-03'', 0), (''2024-01-04'', 0), (''2024-01-05'', 0), (''2024-01-06'', 0),
                    (''2024-01-07'', 0), (''2024-01-08'', 0), (''2024-01-09'', 0)])"
    by (simp add: seven_days_utc iso_lead series_add_def)
  have "q_range created_no_range = None" using h by blast
  with fe bo show ?thesis by blast
qed

end
